theory Spec2Isabelle
  imports Complex_Main
begin

section \<open>Numbers, errors and strings of the Python program\<close>

text \<open>
  The program \<^verbatim>\<open>PFC.py\<close> computes with Python floats, the IEEE 754 binary64 numbers.
  Two models of them are used.

  In the tax engine and the portfolio suggestion a float is an exact real number, and
  \<open>+\<close>, \<open>-\<close>, \<open>*\<close>, \<open>/\<close>, \<open>min\<close>, \<open>max\<close> and the comparisons are the exact operations:
  rounding error, overflow, infinities and NaN are left out there.

  In the planning calculators the outcome itself depends on the rounding: the number of
  months is the rounded product \<^verbatim>\<open>years * 12\<close>, a small rate is lost in \<^verbatim>\<open>1 + r\<close>, and
  \<^verbatim>\<open>**\<close> raises when its result is out of range. They are modelled over the floats of
  the section on floating-point numbers, with every operation rounded.

  Python integers are \<open>int\<close>. Every operation of the source that can raise is a branch
  returning \<open>Inl\<close> of the exception.
\<close>

datatype py_error = ZeroDivisionError | KeyError | OverflowError | ValueError

text \<open>\<^verbatim>\<open>a / b\<close> on exact numbers: raises \<^verbatim>\<open>ZeroDivisionError\<close> when \<open>b\<close> is zero.\<close>

definition py_truediv :: "real \<Rightarrow> real \<Rightarrow> py_error + real" where
  "py_truediv a b = (if b = 0 then Inl ZeroDivisionError else Inr (a / b))"

text \<open>
  \<^verbatim>\<open>round(x)\<close> with one argument returns an integer, rounding a tie to the even
  neighbour; \<^verbatim>\<open>round(x, 2)\<close> does the same at the second decimal place.
\<close>

definition py_round :: "real \<Rightarrow> int" where
  "py_round x =
     (let f = \<lfloor>x\<rfloor>; d = x - of_int f
      in if d < 1 / 2 then f
         else if 1 / 2 < d then f + 1
         else if even f then f else f + 1)"

definition py_round2 :: "real \<Rightarrow> real" where
  "py_round2 x = of_int (py_round (x * 100)) / 100"

text \<open>
  Strings are lists of 8-bit characters: the code points 0 to 255 (Latin-1). On these
  \<^verbatim>\<open>str.lower\<close> maps \<open>A\<close>..\<open>Z\<close> (65 to 90) and the accented capitals 192 to 222, the
  multiplication sign 215 apart, to the character 32 places further on, and leaves the
  rest. \<^verbatim>\<open>str.strip\<close> removes leading and trailing whitespace: the characters 9 to 13
  and 28 to 32, the next-line character 133 and the no-break space 160.
\<close>

definition lower_char :: "char \<Rightarrow> char" where
  "lower_char c =
     (let k = (of_char c :: nat)
      in if (65 \<le> k \<and> k \<le> 90) \<or> (192 \<le> k \<and> k \<le> 222 \<and> k \<noteq> 215)
         then char_of (k + 32) else c)"

definition py_lower :: "string \<Rightarrow> string" where
  "py_lower s = map lower_char s"

definition is_space :: "char \<Rightarrow> bool" where
  "is_space c =
     (let k = (of_char c :: nat)
      in (9 \<le> k \<and> k \<le> 13) \<or> (28 \<le> k \<and> k \<le> 32) \<or> k = 133 \<or> k = 160)"

definition py_strip :: "string \<Rightarrow> string" where
  "py_strip s = rev (dropWhile is_space (rev (dropWhile is_space s)))"

text \<open>\<^verbatim>\<open>clamp(x, lo, hi)\<close> of the source.\<close>

definition clamp :: "real \<Rightarrow> real \<Rightarrow> real \<Rightarrow> real" where
  "clamp x lo hi = max lo (min hi x)"

section \<open>Tax engine\<close>

text \<open>\<^verbatim>\<open>TaxSlab\<close>: \<open>up_to = None\<close> means no upper bound.\<close>

record TaxSlab =
  up_to :: "real option"
  rate :: real

record TaxConfig =
  rebate_threshold_new :: real
  rebate_threshold_old :: real
  std_deduction_new :: real
  std_deduction_old :: real
  max_80C_old :: real
  max_80D_old :: real
  cess_rate :: real
  slabs_new :: "TaxSlab list"
  slabs_old :: "TaxSlab list"

text \<open>The default field values of \<^verbatim>\<open>TaxConfig\<close>.\<close>

definition TaxConfig_default :: TaxConfig where
  "TaxConfig_default =
     \<lparr> rebate_threshold_new = 700000,
       rebate_threshold_old = 500000,
       std_deduction_new = 50000,
       std_deduction_old = 50000,
       max_80C_old = 150000,
       max_80D_old = 25000,
       cess_rate = 4 / 100,
       slabs_new =
         [\<lparr>up_to = Some 300000, rate = 0\<rparr>,
          \<lparr>up_to = Some 600000, rate = 5 / 100\<rparr>,
          \<lparr>up_to = Some 900000, rate = 10 / 100\<rparr>,
          \<lparr>up_to = Some 1200000, rate = 15 / 100\<rparr>,
          \<lparr>up_to = Some 1500000, rate = 20 / 100\<rparr>,
          \<lparr>up_to = None, rate = 30 / 100\<rparr>],
       slabs_old =
         [\<lparr>up_to = Some 250000, rate = 0\<rparr>,
          \<lparr>up_to = Some 500000, rate = 5 / 100\<rparr>,
          \<lparr>up_to = Some 1000000, rate = 20 / 100\<rparr>,
          \<lparr>up_to = None, rate = 30 / 100\<rparr>] \<rparr>"

text \<open>
  The loop of \<^verbatim>\<open>_slab_tax\<close>, with its variables \<open>tax\<close> and \<open>lower\<close> as arguments: one
  equation per iteration, the \<^verbatim>\<open>break\<close> as the end of the recursion.
\<close>

fun slab_tax_loop :: "real \<Rightarrow> real \<Rightarrow> real \<Rightarrow> TaxSlab list \<Rightarrow> real" where
  "slab_tax_loop taxable tax lower [] = tax"
| "slab_tax_loop taxable tax lower (slab # slabs) =
     (let upper = (case up_to slab of Some u \<Rightarrow> u | None \<Rightarrow> taxable);
          tax' = (if lower < taxable
                  then (let segment = min taxable upper - lower
                        in if 0 < segment then tax + segment * rate slab else tax)
                  else tax)
      in if taxable \<le> upper then tax'
         else slab_tax_loop taxable tax' upper slabs)"

definition slab_tax :: "real \<Rightarrow> TaxSlab list \<Rightarrow> real" where
  "slab_tax taxable slabs = slab_tax_loop taxable 0 0 slabs"

text \<open>The dictionary returned by \<^verbatim>\<open>estimate\<close>, one field per key.\<close>

record TaxEstimate =
  regime :: real
  gross :: real
  std_deduction :: real
  deductions :: real
  taxable :: real
  base_tax :: real
  rebate :: real
  cess :: real
  total_tax :: real
  effective_rate :: real

text \<open>
  \<^verbatim>\<open>total / gross_annual_income if gross_annual_income else 0.0\<close>: the division is only
  evaluated for a non-zero gross income.
\<close>

definition effective_rate_of :: "real \<Rightarrow> real \<Rightarrow> py_error + real" where
  "effective_rate_of tot gross_annual_income =
     (if gross_annual_income \<noteq> 0 then py_truediv tot gross_annual_income else Inr 0)"

definition estimate ::
  "TaxConfig \<Rightarrow> real \<Rightarrow> bool \<Rightarrow> string \<Rightarrow> real \<Rightarrow> real \<Rightarrow> py_error + TaxEstimate" where
  "estimate cfg gross_annual_income is_salaried regime_str deductions_old_80C deductions_old_80D =
     (let rg0 = py_strip (py_lower regime_str);
          rg = (if rg0 \<noteq> ''new'' \<and> rg0 \<noteq> ''old'' then ''new'' else rg0);
          std = (if is_salaried \<and> rg = ''new'' then std_deduction_new cfg
                 else if is_salaried \<and> rg = ''old'' then std_deduction_old cfg
                 else 0)
      in if rg = ''new'' then
           (let tx = max 0 (gross_annual_income - std);
                bt = slab_tax tx (slabs_new cfg);
                rb = (if tx \<le> rebate_threshold_new cfg then bt else 0);
                tax_after_rebate = max 0 (bt - rb);
                cs = tax_after_rebate * cess_rate cfg;
                tot = tax_after_rebate + cs
            in case effective_rate_of tot gross_annual_income of
                 Inl e \<Rightarrow> Inl e
               | Inr er \<Rightarrow>
                   Inr \<lparr> regime = 1, gross = gross_annual_income, std_deduction = std,
                         deductions = 0, taxable = tx, base_tax = bt, rebate = rb,
                         cess = cs, total_tax = tot, effective_rate = er \<rparr>)
         else
           (let d80c = min (max_80C_old cfg) (max 0 deductions_old_80C);
                d80d = min (max_80D_old cfg) (max 0 deductions_old_80D);
                ded = d80c + d80d + (if is_salaried then std else 0);
                tx = max 0 (gross_annual_income - ded);
                bt = slab_tax tx (slabs_old cfg);
                rb = (if tx \<le> rebate_threshold_old cfg then bt else 0);
                tax_after_rebate = max 0 (bt - rb);
                cs = tax_after_rebate * cess_rate cfg;
                tot = tax_after_rebate + cs
            in case effective_rate_of tot gross_annual_income of
                 Inl e \<Rightarrow> Inl e
               | Inr er \<Rightarrow>
                   Inr \<lparr> regime = 0, gross = gross_annual_income,
                         std_deduction = (if is_salaried then std else 0),
                         deductions = ded - (if is_salaried then std else 0),
                         taxable = tx, base_tax = bt, rebate = rb,
                         cess = cs, total_tax = tot, effective_rate = er \<rparr>))"

section \<open>Floating-point numbers\<close>

text \<open>
  A Python float is finite, an infinity or NaN. The two zeros are the one value \<open>Fin 0\<close>:
  \<^verbatim>\<open>==\<close> does not tell them apart and a division by either raises. The argument of \<open>Fin\<close>
  is meant to be a number that a float can hold; the results of the operations below
  always are.
\<close>

datatype pyfloat = Fin real | PInf | NInf | NaN

text \<open>
  Rounding to the nearest float, a tie to the even significand. A float has a
  significand of 53 bits, so the spacing of the floats around \<open>x\<close> is \<open>2 ^ (e - 52)\<close>, where
  \<open>e\<close> is the binary exponent of \<open>x\<close>, taken as -1022 for the subnormal numbers below
  \<open>2 ^ -1022\<close>. \<open>fl\<close> rounds without an upper limit on the exponent; \<open>to_float\<close> gives an
  infinity when the rounded magnitude reaches \<open>2 ^ 1024\<close>.
\<close>

definition float_exponent :: "real \<Rightarrow> int" where
  "float_exponent x = max \<lfloor>log 2 \<bar>x\<bar>\<rfloor> (- 1022)"

definition ulp :: "real \<Rightarrow> real" where
  "ulp x = 2 powi (float_exponent x - 52)"

definition fl :: "real \<Rightarrow> real" where
  "fl x = (if x = 0 then 0 else of_int (py_round (x / ulp x)) * ulp x)"

definition to_float :: "real \<Rightarrow> pyfloat" where
  "to_float x =
     (let y = fl x
      in if 2 ^ 1024 \<le> y then PInf else if y \<le> - (2 ^ 1024) then NInf else Fin y)"

text \<open>
  The arithmetic of IEEE 754. \<^verbatim>\<open>+\<close>, \<^verbatim>\<open>-\<close> and \<^verbatim>\<open>*\<close> on floats never raise: a result out of
  range is an infinity, an undefined one (\<open>inf - inf\<close>, \<open>0 * inf\<close>) is NaN.
\<close>

fun float_neg :: "pyfloat \<Rightarrow> pyfloat" where
  "float_neg (Fin a) = Fin (- a)"
| "float_neg PInf = NInf"
| "float_neg NInf = PInf"
| "float_neg NaN = NaN"

fun float_add :: "pyfloat \<Rightarrow> pyfloat \<Rightarrow> pyfloat" where
  "float_add (Fin a) (Fin b) = to_float (a + b)"
| "float_add NaN b = NaN"
| "float_add a NaN = NaN"
| "float_add PInf NInf = NaN"
| "float_add NInf PInf = NaN"
| "float_add PInf b = PInf"
| "float_add NInf b = NInf"
| "float_add a PInf = PInf"
| "float_add a NInf = NInf"

definition float_sub :: "pyfloat \<Rightarrow> pyfloat \<Rightarrow> pyfloat" where
  "float_sub a b = float_add a (float_neg b)"

fun float_mul :: "pyfloat \<Rightarrow> pyfloat \<Rightarrow> pyfloat" where
  "float_mul (Fin a) (Fin b) = to_float (a * b)"
| "float_mul NaN b = NaN"
| "float_mul a NaN = NaN"
| "float_mul (Fin a) b = (if a = 0 then NaN else if 0 < a then b else float_neg b)"
| "float_mul a (Fin b) = (if b = 0 then NaN else if 0 < b then a else float_neg a)"
| "float_mul PInf b = b"
| "float_mul NInf b = float_neg b"

text \<open>
  The quotient of IEEE 754 for a divisor that is not zero, and Python's \<^verbatim>\<open>a / b\<close> on
  floats, which raises \<^verbatim>\<open>ZeroDivisionError\<close> for a zero divisor whatever the dividend.
\<close>

fun float_div :: "pyfloat \<Rightarrow> pyfloat \<Rightarrow> pyfloat" where
  "float_div (Fin a) (Fin b) = to_float (a / b)"
| "float_div NaN b = NaN"
| "float_div a NaN = NaN"
| "float_div (Fin a) b = Fin 0"
| "float_div a (Fin b) = (if 0 < b then a else float_neg a)"
| "float_div a b = NaN"

definition float_truediv :: "pyfloat \<Rightarrow> pyfloat \<Rightarrow> py_error + pyfloat" where
  "float_truediv a b = (if b = Fin 0 then Inl ZeroDivisionError else Inr (float_div a b))"

text \<open>
  An \<open>int\<close> operand of a float operation is converted to a float first, rounded to the
  nearest; the conversion raises \<^verbatim>\<open>OverflowError\<close> when the integer is too large.
\<close>

definition int_to_float :: "int \<Rightarrow> py_error + real" where
  "int_to_float n = (case to_float (of_int n) of Fin x \<Rightarrow> Inr x | _ \<Rightarrow> Inl OverflowError)"

definition float_mul_int :: "pyfloat \<Rightarrow> int \<Rightarrow> py_error + pyfloat" where
  "float_mul_int a n =
     (case int_to_float n of Inl e \<Rightarrow> Inl e | Inr w \<Rightarrow> Inr (float_mul a (Fin w)))"

definition float_truediv_int :: "pyfloat \<Rightarrow> int \<Rightarrow> py_error + pyfloat" where
  "float_truediv_int a n =
     (case int_to_float n of Inl e \<Rightarrow> Inl e | Inr w \<Rightarrow> float_truediv a (Fin w))"

text \<open>
  \<^verbatim>\<open>round(x)\<close> of a float: the nearest integer, a tie to the even one; \<^verbatim>\<open>ValueError\<close> for
  NaN and \<^verbatim>\<open>OverflowError\<close> for an infinity.
\<close>

fun float_round :: "pyfloat \<Rightarrow> py_error + int" where
  "float_round (Fin x) = Inr (py_round x)"
| "float_round NaN = Inl ValueError"
| "float_round PInf = Inl OverflowError"
| "float_round NInf = Inl OverflowError"

text \<open>
  \<^verbatim>\<open>v ** n\<close> for a float \<open>v\<close> and an integer \<open>n\<close>, in the order of CPython's tests. The
  exponent is converted to a float, of integer value \<open>k\<close>. Then \<open>v ** 0\<close> is \<open>1.0\<close> for every
  \<open>v\<close>; NaN stays NaN; an infinity gives an infinity or zero; \<open>0.0\<close> to a negative power
  raises \<^verbatim>\<open>ZeroDivisionError\<close>; \<open>1.0\<close> and \<open>-1.0\<close> give \<open>1.0\<close> or \<open>-1.0\<close>; every other case
  is left to the C library's \<^verbatim>\<open>pow\<close>, whose result is taken here as the rounded exact
  power, and an infinite result raises \<^verbatim>\<open>OverflowError\<close>.
\<close>

definition float_pow :: "pyfloat \<Rightarrow> int \<Rightarrow> py_error + pyfloat" where
  "float_pow v n =
     (case int_to_float n of
        Inl e \<Rightarrow> Inl e
      | Inr w \<Rightarrow>
          (let k = \<lfloor>w\<rfloor>
           in if k = 0 then Inr (Fin 1)
              else case v of
                     NaN \<Rightarrow> Inr NaN
                   | PInf \<Rightarrow> Inr (if 0 < k then PInf else Fin 0)
                   | NInf \<Rightarrow> Inr (if 0 < k then (if odd k then NInf else PInf) else Fin 0)
                   | Fin b \<Rightarrow>
                       if b = 0 then (if k < 0 then Inl ZeroDivisionError else Inr (Fin 0))
                       else if \<bar>b\<bar> = 1 then Inr (Fin (if b < 0 \<and> odd k then - 1 else 1))
                       else (case to_float (b powi k) of
                               Fin p \<Rightarrow> Inr (Fin p)
                             | _ \<Rightarrow> Inl OverflowError)))"

section \<open>Planning calculators\<close>

text \<open>
  The first two lines of the three annuity functions: the monthly rate
  \<^verbatim>\<open>r = annual_pct / 100.0 / 12.0\<close>, where the divisors are not zero, so that nothing is
  raised, and the number of months \<^verbatim>\<open>n = int(round(years * 12))\<close>.
\<close>

definition monthly_rate :: "pyfloat \<Rightarrow> pyfloat" where
  "monthly_rate annual_pct = float_div (float_div annual_pct (Fin 100)) (Fin 12)"

definition months :: "pyfloat \<Rightarrow> py_error + int" where
  "months years = float_round (float_mul years (Fin 12))"

text \<open>
  The expressions are evaluated in Python's order: \<^verbatim>\<open>**\<close> first, then \<^verbatim>\<open>*\<close> and \<^verbatim>\<open>/\<close> from
  left to right. \<^verbatim>\<open>r == 0\<close> holds for the float zero only. In \<open>emi\<close> the power is written
  twice; both evaluations have the same outcome, so it appears once here.
\<close>

definition future_value_sip :: "pyfloat \<Rightarrow> pyfloat \<Rightarrow> pyfloat \<Rightarrow> py_error + pyfloat" where
  "future_value_sip monthly annual_return_pct years =
     (let r = monthly_rate annual_return_pct
      in case months years of
           Inl e \<Rightarrow> Inl e
         | Inr n \<Rightarrow>
             if r = Fin 0 then float_mul_int monthly n
             else case float_pow (float_add (Fin 1) r) n of
                    Inl e \<Rightarrow> Inl e
                  | Inr p \<Rightarrow>
                      (case float_truediv (float_mul monthly (float_sub p (Fin 1))) r of
                         Inl e \<Rightarrow> Inl e
                       | Inr q \<Rightarrow> Inr (float_mul q (float_add (Fin 1) r))))"

definition required_sip :: "pyfloat \<Rightarrow> pyfloat \<Rightarrow> pyfloat \<Rightarrow> py_error + pyfloat" where
  "required_sip target annual_return_pct years =
     (let r = monthly_rate annual_return_pct
      in case months years of
           Inl e \<Rightarrow> Inl e
         | Inr n \<Rightarrow>
             if r = Fin 0 then float_truediv_int target n
             else case float_pow (float_add (Fin 1) r) n of
                    Inl e \<Rightarrow> Inl e
                  | Inr p \<Rightarrow>
                      (case float_truediv (float_sub p (Fin 1)) r of
                         Inl e \<Rightarrow> Inl e
                       | Inr q \<Rightarrow> float_truediv target (float_mul q (float_add (Fin 1) r))))"

definition emi :: "pyfloat \<Rightarrow> pyfloat \<Rightarrow> pyfloat \<Rightarrow> py_error + pyfloat" where
  "emi principal_amount annual_rate_pct years =
     (let r = monthly_rate annual_rate_pct
      in case months years of
           Inl e \<Rightarrow> Inl e
         | Inr n \<Rightarrow>
             if r = Fin 0 then float_truediv_int principal_amount n
             else case float_pow (float_add (Fin 1) r) n of
                    Inl e \<Rightarrow> Inl e
                  | Inr p \<Rightarrow>
                      float_truediv (float_mul (float_mul principal_amount r) p)
                        (float_sub p (Fin 1)))"

text \<open>
  \<^verbatim>\<open>retirement_target\<close> returns the pair \<open>(corpus, future_monthly)\<close>. The parameter
  \<open>retired_years\<close> is taken and not used, as in the source.
\<close>

definition retirement_target ::
  "pyfloat \<Rightarrow> int \<Rightarrow> int \<Rightarrow> pyfloat \<Rightarrow> pyfloat \<Rightarrow> py_error + (pyfloat \<times> pyfloat)" where
  "retirement_target monthly_expense_today years_to_retire retired_years inflation_pct swr_pct =
     (let infl = float_div inflation_pct (Fin 100)
      in case float_pow (float_add (Fin 1) infl) years_to_retire of
           Inl e \<Rightarrow> Inl e
         | Inr p \<Rightarrow>
             (let future_monthly = float_mul monthly_expense_today p;
                  annual_need = float_mul future_monthly (Fin 12)
              in case float_truediv (float_mul annual_need (Fin 100)) swr_pct of
                   Inl e \<Rightarrow> Inl e
                 | Inr corpus \<Rightarrow> Inr (corpus, future_monthly)))"

section \<open>Portfolio suggestion\<close>

text \<open>The dictionaries with the keys \<open>equity\<close>, \<open>debt\<close> and \<open>gold\<close>.\<close>

record alloc =
  equity :: real
  debt :: real
  gold :: real

definition RISK_ALLOCATION :: "string \<rightharpoonup> alloc" where
  "RISK_ALLOCATION =
     map_of
       [(''conservative'', \<lparr>equity = 3 / 10, debt = 6 / 10, gold = 1 / 10\<rparr>),
        (''moderate'', \<lparr>equity = 6 / 10, debt = 3 / 10, gold = 1 / 10\<rparr>),
        (''aggressive'', \<lparr>equity = 8 / 10, debt = 15 / 100, gold = 5 / 100\<rparr>)]"

text \<open>
  The first two lines of \<^verbatim>\<open>suggest_allocation\<close>: the key is lowercased and stripped, and
  \<^verbatim>\<open>RISK_ALLOCATION.get(risk, RISK_ALLOCATION["moderate"])\<close> evaluates its default
  (a subscript, which raises \<^verbatim>\<open>KeyError\<close> on a missing key) before the lookup.
\<close>

definition allocation_base :: "string \<Rightarrow> py_error + alloc" where
  "allocation_base risk =
     (let k = py_strip (py_lower risk)
      in case RISK_ALLOCATION ''moderate'' of
           None \<Rightarrow> Inl KeyError
         | Some dflt \<Rightarrow>
             (case RISK_ALLOCATION k of None \<Rightarrow> Inr dflt | Some b \<Rightarrow> Inr b))"

text \<open>The horizon nudge: the \<^verbatim>\<open>if\<close>/\<^verbatim>\<open>elif\<close> on \<open>horizon_years\<close>.\<close>

definition nudge :: "alloc \<Rightarrow> int \<Rightarrow> alloc" where
  "nudge base horizon_years =
     (if 10 \<le> horizon_years then
        (let b1 = base\<lparr>equity := clamp (equity base + 5 / 100) (2 / 10) (9 / 10)\<rparr>
         in b1\<lparr>debt := clamp (1 - equity b1 - gold b1) (5 / 100) (75 / 100)\<rparr>)
      else if horizon_years \<le> 3 then
        (let b1 = base\<lparr>equity := clamp (equity base - 15 / 100) (1 / 10) (7 / 10)\<rparr>
         in b1\<lparr>debt := clamp (1 - equity b1 - gold b1) (2 / 10) (85 / 100)\<rparr>)
      else base)"

text \<open>The normalisation: every weight divided by the sum and rounded to two places.\<close>

definition normalize_alloc :: "alloc \<Rightarrow> py_error + alloc" where
  "normalize_alloc base =
     (let s = equity base + debt base + gold base
      in case py_truediv (equity base) s of
           Inl e \<Rightarrow> Inl e
         | Inr qe \<Rightarrow>
             (case py_truediv (debt base) s of
                Inl e \<Rightarrow> Inl e
              | Inr qd \<Rightarrow>
                  (case py_truediv (gold base) s of
                     Inl e \<Rightarrow> Inl e
                   | Inr qg \<Rightarrow>
                       Inr \<lparr>equity = py_round2 qe, debt = py_round2 qd, gold = py_round2 qg\<rparr>)))"

definition suggest_allocation :: "string \<Rightarrow> int \<Rightarrow> py_error + alloc" where
  "suggest_allocation risk horizon_years =
     (case allocation_base risk of
        Inl e \<Rightarrow> Inl e
      | Inr base \<Rightarrow> normalize_alloc (nudge base horizon_years))"

section \<open>Predicates used to state the properties\<close>

text \<open>
  The code does not check a slab table. A table is valid when its bounded slabs have
  strictly increasing upper bounds, exactly the last slab is unbounded, and every rate
  lies between 0 and 1.
\<close>

fun valid_slabs :: "TaxSlab list \<Rightarrow> bool" where
  "valid_slabs [] = False"
| "valid_slabs [s] = (up_to s = None \<and> 0 \<le> rate s \<and> rate s \<le> 1)"
| "valid_slabs (s # s' # rest) =
     (0 \<le> rate s \<and> rate s \<le> 1
      \<and> (case up_to s of
           None \<Rightarrow> False
         | Some u \<Rightarrow> (case up_to s' of None \<Rightarrow> True | Some u' \<Rightarrow> u < u'))
      \<and> valid_slabs (s' # rest))"

definition rates_nonneg :: "TaxSlab list \<Rightarrow> bool" where
  "rates_nonneg slabs = list_all (\<lambda>s. 0 \<le> rate s) slabs"

text \<open>What one iteration of the slab loop adds to \<open>tax\<close>, in closed form.\<close>

definition slab_step :: "real \<Rightarrow> real \<Rightarrow> real \<Rightarrow> real \<Rightarrow> real \<Rightarrow> real" where
  "slab_step t tax lower upper r = tax + max 0 (min t upper - lower) * r"


section \<open>Helper facts\<close>

lemma py_lower_new: "py_lower ''new'' = ''new''"
  by (simp add: py_lower_def lower_char_def)

lemma py_lower_old: "py_lower ''old'' = ''old''"
  by (simp add: py_lower_def lower_char_def)

lemma py_strip_new: "py_strip ''new'' = ''new''"
  by (simp add: py_strip_def is_space_def)

lemma py_strip_old: "py_strip ''old'' = ''old''"
  by (simp add: py_strip_def is_space_def)

lemma effective_rate_of_total:
  "\<exists>er. effective_rate_of tot g = Inr er \<and> er = (if g = 0 then 0 else tot / g)"
  by (simp add: effective_rate_of_def py_truediv_def)

lemma TaxConfig_default_fields:
  "rebate_threshold_new TaxConfig_default = 700000"
  "rebate_threshold_old TaxConfig_default = 500000"
  "std_deduction_new TaxConfig_default = 50000"
  "std_deduction_old TaxConfig_default = 50000"
  "max_80C_old TaxConfig_default = 150000"
  "max_80D_old TaxConfig_default = 25000"
  "cess_rate TaxConfig_default = 4 / 100"
  by (simp_all add: TaxConfig_default_def)

lemma slab_tax_new_650000:
  "slab_tax 650000 (slabs_new TaxConfig_default) = 20000"
  by (simp add: slab_tax_def TaxConfig_default_def)

lemma slab_tax_new_700000:
  "slab_tax 700000 (slabs_new TaxConfig_default) = 25000"
  by (simp add: slab_tax_def TaxConfig_default_def)

lemma valid_slabs_new_default: "valid_slabs (slabs_new TaxConfig_default)"
  by (simp add: TaxConfig_default_def)

lemma valid_slabs_rates_nonneg: "valid_slabs slabs \<Longrightarrow> rates_nonneg slabs"
  by (induction slabs rule: valid_slabs.induct) (simp_all add: rates_nonneg_def)

lemma slab_tax_loop_Cons:
  "slab_tax_loop t tax lower (s # slabs) =
     (let upper = (case up_to s of Some u \<Rightarrow> u | None \<Rightarrow> t)
      in if t \<le> upper then slab_step t tax lower upper (rate s)
         else slab_tax_loop t (slab_step t tax lower upper (rate s)) upper slabs)"
proof -
  have "(if lower < t
         then (let segment = min t upper - lower
               in if 0 < segment then tax + segment * rate s else tax)
         else tax) = slab_step t tax lower upper (rate s)" for upper
    by (simp add: slab_step_def Let_def max_def min_def)
  then show ?thesis by (simp add: Let_def)
qed

lemma slab_step_ge: "0 \<le> r \<Longrightarrow> tax \<le> slab_step t tax lower upper r"
  by (simp add: slab_step_def)

lemma slab_step_mono:
  assumes "0 \<le> r" "a \<le> b" "ta \<le> tb" "ua \<le> ub"
  shows "slab_step a ta lower ua r \<le> slab_step b tb lower ub r"
proof -
  have "max 0 (min a ua - lower) \<le> max 0 (min b ub - lower)"
    using assms(2,4) by (simp add: max_def min_def)
  then have "max 0 (min a ua - lower) * r \<le> max 0 (min b ub - lower) * r"
    using assms(1) by (rule mult_right_mono)
  then show ?thesis using assms(3) by (simp add: slab_step_def)
qed

text \<open>With non-negative rates the loop never lowers the tax accumulated so far.\<close>

lemma slab_tax_loop_ge:
  "rates_nonneg slabs \<Longrightarrow> tax \<le> slab_tax_loop t tax lower slabs"
proof (induction slabs arbitrary: tax lower)
  case Nil
  then show ?case by simp
next
  case (Cons s slabs)
  have r: "0 \<le> rate s" and rest: "rates_nonneg slabs"
    using Cons.prems by (simp_all add: rates_nonneg_def)
  define upper where "upper = (case up_to s of Some u \<Rightarrow> u | None \<Rightarrow> t)"
  have step: "tax \<le> slab_step t tax lower upper (rate s)"
    using r by (rule slab_step_ge)
  have "slab_step t tax lower upper (rate s)
          \<le> slab_tax_loop t (slab_step t tax lower upper (rate s)) upper slabs"
    by (rule Cons.IH [OF rest])
  with step show ?case
    by (simp add: slab_tax_loop_Cons upper_def [symmetric] Let_def del: slab_tax_loop.simps)
qed

text \<open>
  The loop is monotone in the taxable income and in the tax carried in. Where the
  smaller income leaves the loop and the larger one goes on, the larger one only gains.
\<close>

lemma slab_tax_loop_mono:
  "rates_nonneg slabs \<Longrightarrow> a \<le> b \<Longrightarrow> ta \<le> tb \<Longrightarrow>
     slab_tax_loop a ta lower slabs \<le> slab_tax_loop b tb lower slabs"
proof (induction slabs arbitrary: ta tb lower)
  case Nil
  then show ?case by simp
next
  case (Cons s slabs)
  have r: "0 \<le> rate s" and rest: "rates_nonneg slabs"
    using Cons.prems(1) by (simp_all add: rates_nonneg_def)
  note ab = Cons.prems(2) and tab = Cons.prems(3)
  show ?case
  proof (cases "up_to s")
    case None
    have "slab_step a ta lower a (rate s) \<le> slab_step b tb lower b (rate s)"
      using r ab tab ab by (rule slab_step_mono)
    then show ?thesis
      by (simp add: slab_tax_loop_Cons None del: slab_tax_loop.simps)
  next
    case (Some u)
    have st: "slab_step a ta lower u (rate s) \<le> slab_step b tb lower u (rate s)"
      using r ab tab order_refl by (rule slab_step_mono)
    show ?thesis
    proof (cases "b \<le> u")
      case True
      then have "a \<le> u" using ab by simp
      then show ?thesis using True st
        by (simp add: slab_tax_loop_Cons Some del: slab_tax_loop.simps)
    next
      case bu: False
      show ?thesis
      proof (cases "a \<le> u")
        case True
        have "slab_step b tb lower u (rate s)
                \<le> slab_tax_loop b (slab_step b tb lower u (rate s)) u slabs"
          by (rule slab_tax_loop_ge [OF rest])
        then show ?thesis using st True bu
          by (simp add: slab_tax_loop_Cons Some del: slab_tax_loop.simps)
      next
        case False
        have "slab_tax_loop a (slab_step a ta lower u (rate s)) u slabs
                \<le> slab_tax_loop b (slab_step b tb lower u (rate s)) u slabs"
          by (rule Cons.IH [OF rest ab st])
        then show ?thesis using False bu
          by (simp add: slab_tax_loop_Cons Some del: slab_tax_loop.simps)
      qed
    qed
  qed
qed

lemma slab_tax_old_800000:
  "slab_tax 800000 (slabs_old TaxConfig_default) = 72500"
  by (simp add: slab_tax_def TaxConfig_default_def)

lemma slab_tax_default_0:
  "slab_tax 0 (slabs_new TaxConfig_default) = 0"
  "slab_tax 0 (slabs_old TaxConfig_default) = 0"
  by (simp_all add: slab_tax_def TaxConfig_default_def)

text \<open>
  The two branches of \<open>estimate\<close>, with the regime string resolved and the guarded division
  carried out. They never raise.
\<close>

lemma effective_rate_of_eq:
  "effective_rate_of tot g = Inr (if g = 0 then 0 else tot / g)"
  by (simp add: effective_rate_of_def py_truediv_def)

lemma new_old_distinct: "(''new'' = ''old'') = False" "(''new'' = ''new'') = True"
  "(''old'' = ''new'') = False" "(''old'' = ''old'') = True"
  by simp_all

lemma estimate_new_branch:
  assumes k: "py_strip (py_lower rg) \<noteq> ''old''"
  shows "estimate cfg g s rg c d =
     (let std = (if s then std_deduction_new cfg else 0);
          tx = max 0 (g - std);
          bt = slab_tax tx (slabs_new cfg);
          rb = (if tx \<le> rebate_threshold_new cfg then bt else 0);
          tax_after_rebate = max 0 (bt - rb);
          cs = tax_after_rebate * cess_rate cfg;
          tot = tax_after_rebate + cs
      in Inr \<lparr> regime = 1, gross = g, std_deduction = std,
                deductions = 0, taxable = tx, base_tax = bt, rebate = rb,
                cess = cs, total_tax = tot,
                effective_rate = (if g = 0 then 0 else tot / g) \<rparr>)"
proof -
  have rg: "(if py_strip (py_lower rg) \<noteq> ''new'' \<and> py_strip (py_lower rg) \<noteq> ''old''
             then ''new'' else py_strip (py_lower rg)) = ''new''"
    using k by simp
  show ?thesis
    unfolding estimate_def Let_def rg effective_rate_of_eq
    by (cases s) (simp_all only: new_old_distinct simp_thms if_True if_False sum.case)
qed

lemma estimate_old_branch:
  assumes k: "py_strip (py_lower rg) = ''old''"
  shows "estimate cfg g s rg c d =
     (let std = (if s then std_deduction_old cfg else 0);
          d80c = min (max_80C_old cfg) (max 0 c);
          d80d = min (max_80D_old cfg) (max 0 d);
          ded = d80c + d80d + std;
          tx = max 0 (g - ded);
          bt = slab_tax tx (slabs_old cfg);
          rb = (if tx \<le> rebate_threshold_old cfg then bt else 0);
          tax_after_rebate = max 0 (bt - rb);
          cs = tax_after_rebate * cess_rate cfg;
          tot = tax_after_rebate + cs
      in Inr \<lparr> regime = 0, gross = g, std_deduction = std,
                deductions = ded - std, taxable = tx, base_tax = bt, rebate = rb,
                cess = cs, total_tax = tot,
                effective_rate = (if g = 0 then 0 else tot / g) \<rparr>)"
proof -
  have rg: "(if py_strip (py_lower rg) \<noteq> ''new'' \<and> py_strip (py_lower rg) \<noteq> ''old''
             then ''new'' else py_strip (py_lower rg)) = ''old''"
    using k by simp
  show ?thesis
    unfolding estimate_def Let_def rg effective_rate_of_eq
    by (cases s) (simp_all only: new_old_distinct simp_thms if_True if_False sum.case)
qed

lemma estimate_total:
  "\<exists>r. estimate cfg g s rg c d = Inr r \<and> gross r = g
       \<and> effective_rate r = (if g = 0 then 0 else total_tax r / g)"
proof (cases "py_strip (py_lower rg) = ''old''")
  case True
  show ?thesis
    apply (simp only: estimate_old_branch [OF True] Let_def)
    apply (rule exI, intro conjI, rule refl)
     apply (simp_all only: TaxEstimate.select_convs)
    done
next
  case False
  show ?thesis
    apply (simp only: estimate_new_branch [OF False] Let_def)
    apply (rule exI, intro conjI, rule refl)
     apply (simp_all only: TaxEstimate.select_convs)
    done
qed


lemma estimate_new_fields:
  assumes k: "py_strip (py_lower rg) \<noteq> ''old''"
  shows "\<exists>r. estimate cfg g s rg c d = Inr r
    \<and> taxable r = max 0 (g - (if s then std_deduction_new cfg else 0))
    \<and> base_tax r = slab_tax (taxable r) (slabs_new cfg)
    \<and> rebate r = (if taxable r \<le> rebate_threshold_new cfg then base_tax r else 0)
    \<and> total_tax r = max 0 (base_tax r - rebate r) + max 0 (base_tax r - rebate r) * cess_rate cfg"
  apply (simp only: estimate_new_branch [OF k] Let_def)
  apply (rule exI, intro conjI, rule refl)
     apply (simp_all only: TaxEstimate.select_convs)
  done

lemma estimate_old_fields:
  assumes k: "py_strip (py_lower rg) = ''old''"
  shows "\<exists>r. estimate cfg g s rg c d = Inr r
    \<and> taxable r = max 0 (g - (min (max_80C_old cfg) (max 0 c) + min (max_80D_old cfg) (max 0 d)
                              + (if s then std_deduction_old cfg else 0)))
    \<and> base_tax r = slab_tax (taxable r) (slabs_old cfg)
    \<and> rebate r = (if taxable r \<le> rebate_threshold_old cfg then base_tax r else 0)
    \<and> total_tax r = max 0 (base_tax r - rebate r) + max 0 (base_tax r - rebate r) * cess_rate cfg"
  apply (simp only: estimate_old_branch [OF k] Let_def)
  apply (rule exI, intro conjI, rule refl)
     apply (simp_all only: TaxEstimate.select_convs)
  done

lemma max_0_idem: "max 0 (max 0 x) = max (0::real) x"
  by simp

lemma estimate_clamps_negative:
  "estimate cfg g s rg c d = estimate cfg g s rg (max 0 c) (max 0 d)"
proof (cases "py_strip (py_lower rg) = ''old''")
  case True
  show ?thesis
    by (simp only: estimate_old_branch [OF True] max_0_idem)
next
  case False
  show ?thesis
    by (simp only: estimate_new_branch [OF False])
qed

lemma estimate_default_negative_gross:
  assumes g: "g < 0"
  shows "\<exists>r. estimate TaxConfig_default g s rg c d = Inr r \<and> taxable r = 0 \<and> total_tax r = 0"
proof (cases "py_strip (py_lower rg) = ''old''")
  case True
  obtain r where r: "estimate TaxConfig_default g s rg c d = Inr r"
    and tx: "taxable r = max 0 (g - (min (max_80C_old TaxConfig_default) (max 0 c)
                 + min (max_80D_old TaxConfig_default) (max 0 d)
                 + (if s then std_deduction_old TaxConfig_default else 0)))"
    and bt: "base_tax r = slab_tax (taxable r) (slabs_old TaxConfig_default)"
    and rb: "rebate r = (if taxable r \<le> rebate_threshold_old TaxConfig_default then base_tax r else 0)"
    and tt: "total_tax r = max 0 (base_tax r - rebate r)
                + max 0 (base_tax r - rebate r) * cess_rate TaxConfig_default"
    using estimate_old_fields [OF True, of TaxConfig_default g s c d] by blast
  have "0 \<le> min (150000::real) (max 0 c)" "0 \<le> min (25000::real) (max 0 d)"
    by simp_all
  then have tx0: "taxable r = 0"
    using g unfolding tx TaxConfig_default_fields by (cases s) simp_all
  have bt0: "base_tax r = 0"
    unfolding bt tx0 by (rule slab_tax_default_0)
  have "rebate r = 0"
    unfolding rb bt0 by simp
  then have "total_tax r = 0"
    unfolding tt bt0 by simp
  with r tx0 show ?thesis by blast
next
  case False
  obtain r where r: "estimate TaxConfig_default g s rg c d = Inr r"
    and tx: "taxable r = max 0 (g - (if s then std_deduction_new TaxConfig_default else 0))"
    and bt: "base_tax r = slab_tax (taxable r) (slabs_new TaxConfig_default)"
    and rb: "rebate r = (if taxable r \<le> rebate_threshold_new TaxConfig_default then base_tax r else 0)"
    and tt: "total_tax r = max 0 (base_tax r - rebate r)
                + max 0 (base_tax r - rebate r) * cess_rate TaxConfig_default"
    using estimate_new_fields [OF False, of TaxConfig_default g s c d] by blast
  have tx0: "taxable r = 0"
    using g unfolding tx TaxConfig_default_fields by (cases s) simp_all
  have bt0: "base_tax r = 0"
    unfolding bt tx0 by (rule slab_tax_default_0)
  have "rebate r = 0"
    unfolding rb bt0 by simp
  then have "total_tax r = 0"
    unfolding tt bt0 by simp
  with r tx0 show ?thesis by blast
qed

text \<open>Rounding to an integer.\<close>

lemma py_round_of_int: "py_round (of_int k) = k"
  by (simp add: py_round_def)

lemma py_round_0: "py_round 0 = 0"
  by (simp add: py_round_def)


lemma py_round_le: "t \<le> of_int N \<Longrightarrow> py_round t \<le> N"
  unfolding py_round_def Let_def
  by (auto simp: floor_le_iff le_floor_iff; linarith)

lemma py_round_ge: "of_int N \<le> t \<Longrightarrow> N \<le> py_round t"
  unfolding py_round_def Let_def
  by (auto simp: floor_le_iff le_floor_iff; linarith)

lemma two_powi_le_iff: "(2::real) powi m \<le> 2 powi n \<longleftrightarrow> m \<le> n"
proof
  assume "(2::real) powi m \<le> 2 powi n"
  show "m \<le> n"
  proof (rule ccontr)
    assume "\<not> m \<le> n"
    then have "(2::real) powi n < 2 powi m"
      by (intro power_int_strict_increasing) simp_all
    with \<open>(2::real) powi m \<le> 2 powi n\<close> show False by linarith
  qed
next
  assume "m \<le> n"
  then show "(2::real) powi m \<le> 2 powi n"
    by (intro power_int_increasing) simp_all
qed

lemma two_powi_less_iff: "(2::real) powi m < 2 powi n \<longleftrightarrow> m < n"
  using two_powi_le_iff [of n m] by (simp add: not_le [symmetric])

lemma two_powi_pos: "0 < (2::real) powi k"
  by simp

lemma two_powi_split: "0 \<le> d \<Longrightarrow> (2::real) powi (a + d) = of_int (2 ^ nat d) * 2 powi a"
  by (simp add: power_int_add power_int_nonneg_exp)

lemma floor_log2_iff:
  assumes "x \<noteq> 0"
  shows "\<lfloor>log 2 \<bar>x\<bar>\<rfloor> = k \<longleftrightarrow> 2 powi k \<le> \<bar>x\<bar> \<and> \<bar>x\<bar> < 2 powi (k + 1)"
proof -
  have "0 < \<bar>x\<bar>" using assms by simp
  then have "\<lfloor>log 2 \<bar>x\<bar>\<rfloor> = k \<longleftrightarrow>
      2 powr real_of_int k \<le> \<bar>x\<bar> \<and> \<bar>x\<bar> < 2 powr real_of_int (k + 1)"
    by (intro floor_log_eq_powr_iff) simp_all
  then show ?thesis
    by (simp only: powr_real_of_int' [of 2, simplified])
qed

lemma floor_log2_bounds:
  assumes "x \<noteq> 0"
  shows "2 powi \<lfloor>log 2 \<bar>x\<bar>\<rfloor> \<le> \<bar>x\<bar>" and "\<bar>x\<bar> < 2 powi (\<lfloor>log 2 \<bar>x\<bar>\<rfloor> + 1)"
  using floor_log2_iff [OF assms, of "\<lfloor>log 2 \<bar>x\<bar>\<rfloor>"] by simp_all

lemma floor_log2_eq:
  assumes "2 powi k \<le> \<bar>x\<bar>" "\<bar>x\<bar> < 2 powi (k + 1)"
  shows "\<lfloor>log 2 \<bar>x\<bar>\<rfloor> = k"
proof -
  have "x \<noteq> 0"
  proof
    assume "x = 0"
    with assms(1) have "(2::real) powi k \<le> 0" by simp
    with two_powi_pos [of k] show False by linarith
  qed
  then show ?thesis using floor_log2_iff assms by blast
qed

lemma floor_log2_le:
  assumes "x \<noteq> 0" "\<bar>x\<bar> \<le> 2 powi k"
  shows "\<lfloor>log 2 \<bar>x\<bar>\<rfloor> \<le> k"
proof -
  have "2 powi \<lfloor>log 2 \<bar>x\<bar>\<rfloor> \<le> (2::real) powi k"
    using floor_log2_bounds(1) [OF assms(1)] assms(2) by linarith
  then show ?thesis
    by (simp only: two_powi_le_iff)
qed

lemma floor_log2_less:
  assumes "x \<noteq> 0" "\<bar>x\<bar> < 2 powi k"
  shows "\<lfloor>log 2 \<bar>x\<bar>\<rfloor> < k"
proof -
  have "2 powi \<lfloor>log 2 \<bar>x\<bar>\<rfloor> < (2::real) powi k"
    using floor_log2_bounds(1) [OF assms(1)] assms(2) by linarith
  then show ?thesis
    by (simp only: two_powi_less_iff)
qed

lemma ulp_pos: "0 < ulp x"
  by (simp add: ulp_def)

lemma fl_0: "fl 0 = 0"
  by (simp add: fl_def)


text \<open>Rounding never passes a power of two.\<close>

lemma fl_abs_le:
  assumes "\<bar>x\<bar> \<le> 2 powi k" "- 1022 \<le> k"
  shows "\<bar>fl x\<bar> \<le> 2 powi k"
proof (cases "x = 0")
  case True then show ?thesis by (simp add: fl_0)
next
  case False
  define e where "e = float_exponent x"
  have ek: "e \<le> k"
    using floor_log2_le [OF False assms(1)] assms(2) by (simp add: e_def float_exponent_def)
  define N where "N = (2::int) ^ nat (k - (e - 52))"
  have u: "ulp x = 2 powi (e - 52)" by (simp add: ulp_def e_def)
  have N: "2 powi k = of_int N * ulp x"
    using two_powi_split [of "k - (e - 52)" "e - 52"] ek by (simp add: N_def u)
  have "x / ulp x \<le> of_int N" "of_int (- N) \<le> x / ulp x"
    using assms(1) ulp_pos [of x] N by (simp_all add: field_simps abs_le_iff)
  then have "py_round (x / ulp x) \<le> N" "- N \<le> py_round (x / ulp x)"
    by (simp_all only: py_round_le py_round_ge)
  then have "\<bar>real_of_int (py_round (x / ulp x))\<bar> \<le> of_int N"
    by linarith
  then have "\<bar>real_of_int (py_round (x / ulp x))\<bar> * ulp x \<le> of_int N * ulp x"
    using ulp_pos [of x] by (intro mult_right_mono) simp_all
  then show ?thesis
    using False ulp_pos [of x] by (simp add: fl_def abs_mult N)
qed

text \<open>A number \<open>k * 2 ^ e\<close> with \<open>\<bar>k\<bar> < 2 ^ 53\<close> and \<open>e \<ge> -1074\<close> is a float.\<close>

lemma fl_representable:
  assumes k: "\<bar>k\<bar> < 2 ^ 53" and e: "- 1074 \<le> e"
  shows "fl (of_int k * 2 powi e) = of_int k * 2 powi e"
proof (cases "k = 0")
  case True then show ?thesis by (simp add: fl_0)
next
  case False
  define x where "x = real_of_int k * 2 powi e"
  have x0: "x \<noteq> 0" using False by (simp add: x_def)
  have "\<bar>x\<bar> = \<bar>real_of_int k\<bar> * 2 powi e" by (simp add: x_def abs_mult)
  also have "\<dots> < 2 ^ 53 * 2 powi e"
    using k by (intro mult_strict_right_mono) (simp_all add: of_int_abs [symmetric] del: of_int_abs)
  also have "\<dots> = 2 powi (e + 53)"
    by (simp add: power_int_add)
  finally have "\<lfloor>log 2 \<bar>x\<bar>\<rfloor> < e + 53"
    using floor_log2_less [OF x0] by simp
  then have d: "0 \<le> e - (float_exponent x - 52)"
    using e by (simp add: float_exponent_def)
  define m where "m = nat (e - (float_exponent x - 52))"
  have pe: "2 powi e = of_int (2 ^ m) * ulp x"
    using two_powi_split [OF d, of "float_exponent x - 52"] by (simp add: m_def ulp_def)
  have xm: "x = of_int (k * 2 ^ m) * ulp x"
    unfolding x_def [symmetric] by (subst x_def, subst pe) simp
  have "x / ulp x = of_int (k * 2 ^ m)"
    using ulp_pos [of x] by (subst xm) simp
  then have "py_round (x / ulp x) = k * 2 ^ m"
    by (simp only: py_round_of_int)
  then have "fl x = of_int (k * 2 ^ m) * ulp x"
    using x0 by (simp add: fl_def)
  also have "\<dots> = x"
    by (rule xm [symmetric])
  finally show ?thesis
    by (simp add: x_def)
qed

lemma fl_of_int: "\<bar>k\<bar> < 2 ^ 53 \<Longrightarrow> fl (of_int k) = of_int k"
  using fl_representable [of k 0] by simp


lemma to_float_0: "to_float 0 = Fin 0"
  by (simp add: to_float_def fl_0)

lemma to_float_if:
  assumes "\<bar>fl x\<bar> < 2 ^ 1024"
  shows "to_float x = Fin (fl x)"
proof -
  have "\<not> 2 ^ 1024 \<le> fl x" "\<not> fl x \<le> - (2 ^ 1024)"
    using assms by linarith+
  then show ?thesis
    by (simp only: to_float_def Let_def if_False)
qed

lemma to_float_fin:
  assumes "\<bar>x\<bar> \<le> 2 powi 1023"
  shows "to_float x = Fin (fl x)"
proof -
  have "\<bar>fl x\<bar> \<le> 2 powi 1023"
    using assms by (rule fl_abs_le) simp
  moreover have "(2::real) powi 1023 < 2 ^ 1024"
    by simp
  ultimately have "\<bar>fl x\<bar> < 2 ^ 1024"
    by (rule le_less_trans)
  then show ?thesis
    by (rule to_float_if)
qed

lemma to_float_of_int: "\<bar>k\<bar> < 2 ^ 53 \<Longrightarrow> to_float (of_int k) = Fin (of_int k)"
proof -
  assume k: "\<bar>k\<bar> < 2 ^ 53"
  then have "\<bar>real_of_int k\<bar> < 2 ^ 53"
    by (simp add: of_int_abs [symmetric] del: of_int_abs)
  then have "\<bar>real_of_int k\<bar> \<le> 2 powi 1023"
    by simp
  then show ?thesis
    using fl_of_int [OF k] by (simp add: to_float_fin)
qed


text \<open>Every rounded number is an integer of at most 53 bits times a power of two.\<close>

lemma fl_form:
  assumes "x \<noteq> 0"
  shows "\<exists>K. fl x = of_int K * 2 powi (float_exponent x - 52) \<and> \<bar>K\<bar> \<le> 2 ^ 53"
proof -
  define e where "e = float_exponent x"
  have u: "ulp x = 2 powi (e - 52)" by (simp add: ulp_def e_def)
  have "\<lfloor>log 2 \<bar>x\<bar>\<rfloor> + 1 \<le> e + 1"
    by (simp add: e_def float_exponent_def)
  then have "(2::real) powi (\<lfloor>log 2 \<bar>x\<bar>\<rfloor> + 1) \<le> 2 powi (e + 1)"
    by (simp only: two_powi_le_iff)
  then have "\<bar>x\<bar> \<le> 2 powi (e + 1)"
    using floor_log2_bounds(2) [OF assms] by linarith
  also have "(2::real) powi (e + 1) = of_int (2 ^ 53) * ulp x"
    using two_powi_split [of 53 "e - 52"] by (simp add: u add.commute)
  finally have "x / ulp x \<le> of_int (2 ^ 53)" "of_int (- (2 ^ 53)) \<le> x / ulp x"
    using ulp_pos [of x] by (simp_all add: field_simps abs_le_iff)
  then have "py_round (x / ulp x) \<le> 2 ^ 53" "- (2 ^ 53) \<le> py_round (x / ulp x)"
    by (simp_all only: py_round_le py_round_ge)
  then have "\<bar>py_round (x / ulp x)\<bar> \<le> 2 ^ 53"
    by linarith
  moreover have "fl x = of_int (py_round (x / ulp x)) * 2 powi (float_exponent x - 52)"
    using assms by (simp add: fl_def ulp_def)
  ultimately show ?thesis
    by blast
qed

lemma fl_representable_le:
  assumes k: "\<bar>k\<bar> \<le> 2 ^ 53" and e: "- 1074 \<le> e"
  shows "fl (of_int k * 2 powi e) = of_int k * 2 powi e"
proof (cases "\<bar>k\<bar> < 2 ^ 53")
  case True
  then show ?thesis using e by (rule fl_representable)
next
  case False
  then have "\<bar>k\<bar> = 2 ^ 53" using k by linarith
  then have "k = 2 ^ 53 \<or> k = - (2 ^ 53)"
    by linarith
  then have "k = 2 * (k div 2)" and h: "\<bar>k div 2\<bar> < 2 ^ 53"
    by auto
  then have "real_of_int k = real_of_int (k div 2) * 2"
    by (metis mult.commute of_int_mult of_int_numeral)
  then have "of_int k * 2 powi e = of_int (k div 2) * (2::real) powi (e + 1)"
    by (simp add: power_int_add)
  moreover have "fl (of_int (k div 2) * 2 powi (e + 1)) = of_int (k div 2) * 2 powi (e + 1)"
    using h by (rule fl_representable) (use e in simp)
  ultimately show ?thesis
    by simp
qed

lemma fl_idem: "fl (fl x) = fl x"
proof (cases "x = 0")
  case True then show ?thesis by (simp add: fl_0)
next
  case False
  obtain K where K: "fl x = of_int K * 2 powi (float_exponent x - 52)" "\<bar>K\<bar> \<le> 2 ^ 53"
    using fl_form [OF False] by blast
  have "- 1074 \<le> float_exponent x - 52"
    by (simp add: float_exponent_def)
  with K(2) show ?thesis
    unfolding K(1) by (rule fl_representable_le)
qed


lemma to_float_cases:
  assumes "to_float x = Fin p"
  shows "p = fl x" and "\<bar>p\<bar> < 2 ^ 1024"
  using assms unfolding to_float_def Let_def by (auto split: if_splits)

text \<open>The integer nearest to a float is a float: \<open>round\<close> of a finite float converts back.\<close>

lemma float_round_value:
  assumes p: "p = fl z" and b: "\<bar>p\<bar> < 2 ^ 1024"
  shows "to_float (of_int (py_round p)) = Fin (of_int (py_round p))"
proof (cases "\<bar>p\<bar> \<le> 2 ^ 52")
  case True
  then have "p \<le> of_int (2 ^ 52)" "of_int (- (2 ^ 52)) \<le> p"
    by simp_all
  then have "py_round p \<le> 2 ^ 52" "- (2 ^ 52) \<le> py_round p"
    by (simp_all only: py_round_le py_round_ge)
  then have "\<bar>py_round p\<bar> < 2 ^ 53"
    by simp
  then show ?thesis
    by (rule to_float_of_int)
next
  case False
  then have z0: "z \<noteq> 0" using p by (auto simp: fl_0)
  obtain K where K: "fl z = of_int K * 2 powi (float_exponent z - 52)" "\<bar>K\<bar> \<le> 2 ^ 53"
    using fl_form [OF z0] by blast
  define j where "j = float_exponent z - 52"
  have "0 \<le> j"
  proof (rule ccontr)
    assume "\<not> 0 \<le> j"
    then have "(2::real) powi j \<le> 2 powi (- 1)"
      by (simp only: two_powi_le_iff)
    then have "(2::real) powi j \<le> 1 / 2" by simp
    moreover have "\<bar>real_of_int K\<bar> \<le> 2 ^ 53"
      using K(2) by (simp add: of_int_abs [symmetric] del: of_int_abs)
    ultimately have "\<bar>real_of_int K\<bar> * 2 powi j \<le> 2 ^ 53 * (1 / 2)"
      by (intro mult_mono) simp_all
    then have "\<bar>p\<bar> \<le> 2 ^ 52"
      by (simp add: p K(1) j_def abs_mult)
    with False show False by simp
  qed
  then have "p = of_int (K * 2 ^ nat j)"
    by (simp add: p K(1) j_def [symmetric] power_int_nonneg_exp)
  then have pi: "of_int (py_round p) = p"
    by (simp only: py_round_of_int)
  have "fl p = p" by (simp add: p fl_idem)
  then have "\<bar>fl p\<bar> < 2 ^ 1024" using b by simp
  then have "to_float p = Fin (fl p)" by (rule to_float_if)
  then show ?thesis
    by (simp add: pi \<open>fl p = p\<close>)
qed

lemma float_mul_Fin_12:
  "float_mul years (Fin 12) = Fin p \<Longrightarrow> \<exists>y. years = Fin y \<and> to_float (y * 12) = Fin p"
  by (cases years) simp_all

lemma months_Inr:
  assumes "months years = Inr n"
  shows "\<exists>y p. years = Fin y \<and> to_float (y * 12) = Fin p \<and> n = py_round p"
proof -
  obtain p where p: "float_mul years (Fin 12) = Fin p" "n = py_round p"
    using assms unfolding months_def by (cases "float_mul years (Fin 12)") auto
  then show ?thesis
    using float_mul_Fin_12 by blast
qed

lemma months_convertible:
  assumes "months years = Inr n"
  shows "int_to_float n = Inr (of_int n)"
proof -
  obtain y p where "years = Fin y" "to_float (y * 12) = Fin p" "n = py_round p"
    using months_Inr [OF assms] by blast
  then have "to_float (of_int n) = Fin (of_int n)"
    using to_float_cases [of "y * 12" p] float_round_value [of p "y * 12"] by simp
  then show ?thesis
    by (simp add: int_to_float_def)
qed


text \<open>The monthly rate and the growth factor of a finite annual percentage are finite.\<close>

lemma monthly_rate_fin:
  assumes "\<bar>pct\<bar> < 2 ^ 1024"
  shows "\<exists>r. monthly_rate (Fin pct) = Fin r \<and> \<bar>r\<bar> \<le> 2 powi 1015"
proof -
  define q where "q = fl (pct / 100)"
  have h: "\<bar>pct / 100\<bar> \<le> 2 powi 1018"
    using assms by simp
  have b: "\<bar>q\<bar> \<le> 2 powi 1018"
    unfolding q_def using h by (rule fl_abs_le) simp
  have "\<bar>pct / 100\<bar> \<le> 2 powi 1023"
    using h by simp
  then have a: "to_float (pct / 100) = Fin q"
    unfolding q_def by (rule to_float_fin)
  have h': "\<bar>q / 12\<bar> \<le> 2 powi 1015"
    using b by simp
  have b': "\<bar>fl (q / 12)\<bar> \<le> 2 powi 1015"
    using h' by (rule fl_abs_le) simp
  have "\<bar>q / 12\<bar> \<le> 2 powi 1023"
    using h' by simp
  then have a': "to_float (q / 12) = Fin (fl (q / 12))"
    by (rule to_float_fin)
  show ?thesis
    using b' by (simp add: monthly_rate_def a a')
qed

lemma growth_factor_fin:
  assumes "\<bar>r\<bar> \<le> 2 powi 1015"
  shows "\<exists>b. to_float (1 + r) = Fin b"
proof -
  have "\<bar>1 + r\<bar> \<le> 2 powi 1023"
    using assms by simp
  then show ?thesis
    by (simp add: to_float_fin)
qed

lemma int_to_float_0: "int_to_float 0 = Inr 0"
  by (simp add: int_to_float_def to_float_0)

lemma float_pow_0: "float_pow v 0 = Inr (Fin 1)"
  by (simp add: float_pow_def int_to_float_0)

lemma float_truediv_zero: "float_truediv a (Fin 0) = Inl ZeroDivisionError"
  by (simp add: float_truediv_def)

lemma float_truediv_of_zero: "r \<noteq> 0 \<Longrightarrow> float_truediv (Fin 0) (Fin r) = Inr (Fin 0)"
  by (simp add: float_truediv_def to_float_0)

lemma float_mul_zero: "float_mul (Fin a) (Fin 0) = Fin 0" "float_mul (Fin 0) (Fin a) = Fin 0"
  by (simp_all add: to_float_0)

lemma float_sub_self: "float_sub (Fin a) (Fin a) = Fin 0"
  by (simp add: float_sub_def to_float_0)

lemma annuity_zero_periods:
  assumes n: "months years = Inr 0" and pct: "\<bar>pct\<bar> < 2 ^ 1024"
  shows "future_value_sip (Fin monthly) (Fin pct) years = Inr (Fin 0)"
    and "required_sip target (Fin pct) years = Inl ZeroDivisionError"
    and "emi principal_amount (Fin pct) years = Inl ZeroDivisionError"
proof -
  obtain r where r: "monthly_rate (Fin pct) = Fin r" "\<bar>r\<bar> \<le> 2 powi 1015"
    using monthly_rate_fin [OF pct] by blast
  obtain b where b: "to_float (1 + r) = Fin b"
    using growth_factor_fin [OF r(2)] by blast
  show "future_value_sip (Fin monthly) (Fin pct) years = Inr (Fin 0)"
    by (simp add: future_value_sip_def n r(1) b float_pow_0 float_sub_self float_mul_zero
        float_truediv_of_zero float_mul_int_def int_to_float_0 to_float_0 Let_def)
  show "required_sip target (Fin pct) years = Inl ZeroDivisionError"
    by (simp add: required_sip_def n r(1) b float_pow_0 float_sub_self float_mul_zero
        float_truediv_of_zero float_truediv_zero float_truediv_int_def int_to_float_0 to_float_0 Let_def)
  show "emi principal_amount (Fin pct) years = Inl ZeroDivisionError"
    by (simp add: emi_def n r(1) b float_pow_0 float_sub_self float_truediv_zero
        float_truediv_int_def int_to_float_0 to_float_0 Let_def)
qed

lemma monthly_rate_0: "monthly_rate (Fin 0) = Fin 0"
  by (simp add: monthly_rate_def to_float_0)

lemma annuity_zero_rate:
  assumes n: "months years = Inr n"
  shows "future_value_sip monthly (Fin 0) years = Inr (float_mul monthly (Fin (of_int n)))"
    and "required_sip target (Fin 0) years = float_truediv target (Fin (of_int n))"
    and "emi principal_amount (Fin 0) years = float_truediv principal_amount (Fin (of_int n))"
  using months_convertible [OF n]
  by (simp_all add: future_value_sip_def required_sip_def emi_def n monthly_rate_0
      float_mul_int_def float_truediv_int_def Let_def)

lemma months_0: "months (Fin 0) = Inr 0"
  by (simp add: months_def to_float_0 py_round_def)


text \<open>Rounding a number whose binade is known.\<close>

lemma fl_eval:
  assumes "2 powi e \<le> \<bar>x\<bar>" "\<bar>x\<bar> < 2 powi (e + 1)" "- 1022 \<le> e"
  shows "fl x = of_int (py_round (x / 2 powi (e - 52))) * 2 powi (e - 52)"
proof -
  have "\<lfloor>log 2 \<bar>x\<bar>\<rfloor> = e"
    using assms(1,2) by (rule floor_log2_eq)
  moreover have "x \<noteq> 0"
  proof
    assume "x = 0"
    with assms(1) have "(2::real) powi e \<le> 0" by simp
    with two_powi_pos [of e] show False by linarith
  qed
  ultimately show ?thesis
    using assms(3) by (simp add: fl_def ulp_def float_exponent_def)
qed

lemma months_half_month: "months (Fin (3002399751580331 / 2 ^ 56)) = Inr 0"
proof -
  have "fl (3002399751580331 / 2 ^ 56 * 12) = 1 / 2"
    by (subst fl_eval [where e = "- 1"]) (simp_all add: py_round_def)
  then have "to_float (3002399751580331 / 2 ^ 56 * 12) = Fin (1 / 2)"
    using to_float_if [of "3002399751580331 / 2 ^ 56 * 12"] by simp
  then show ?thesis
    by (simp add: months_def py_round_def)
qed

lemma months_minus_two_and_a_half: "months (Fin (- 7505999378950827 / 2 ^ 55)) = Inr (- 2)"
proof -
  have "fl (- 7505999378950827 / 2 ^ 55 * 12) = - (5 / 2)"
    by (subst fl_eval [where e = 1]) (simp_all add: py_round_def)
  then have "to_float (- 7505999378950827 / 2 ^ 55 * 12) = Fin (- (5 / 2))"
    using to_float_if [of "- 7505999378950827 / 2 ^ 55 * 12"] by simp
  then show ?thesis
    by (simp add: months_def py_round_def)
qed










text \<open>Rounding a number that is at least a power of two gives at least that power.\<close>

lemma fl_ge:
  assumes "2 powi k \<le> x" "- 1074 \<le> k"
  shows "2 powi k \<le> fl x"
proof -
  have xp: "0 < x" using assms(1) two_powi_pos [of k] by linarith
  then have x0: "x \<noteq> 0" by simp
  define e where "e = float_exponent x"
  have u: "ulp x = 2 powi (e - 52)" by (simp add: ulp_def e_def)
  have flx: "fl x = of_int (py_round (x / ulp x)) * ulp x"
    using x0 by (simp add: fl_def)
  show ?thesis
  proof (cases "e - 52 \<le> k")
    case True
    define N where "N = (2::int) ^ nat (k - (e - 52))"
    have N: "2 powi k = of_int N * ulp x"
      using two_powi_split [of "k - (e - 52)" "e - 52"] True by (simp add: N_def u)
    then have "of_int N \<le> x / ulp x"
      using assms(1) ulp_pos [of x] by (simp add: field_simps)
    then have "N \<le> py_round (x / ulp x)"
      by (rule py_round_ge)
    then have "of_int N * ulp x \<le> of_int (py_round (x / ulp x)) * ulp x"
      using ulp_pos [of x] by (intro mult_right_mono) simp_all
    then show ?thesis
      by (simp add: flx N)
  next
    case False
    then have "- 1022 < e"
      using assms(2) by linarith
    then have "e = \<lfloor>log 2 \<bar>x\<bar>\<rfloor>"
      by (simp add: e_def float_exponent_def max_def split: if_splits)
    then have "2 powi e \<le> x"
      using floor_log2_bounds(1) [OF x0] xp by simp
    moreover have "(2::real) powi (e - 52) \<le> 2 powi e"
      by (simp add: two_powi_le_iff)
    ultimately have "of_int 1 \<le> x / ulp x"
      using ulp_pos [of x] by (simp add: u field_simps)
    then have "1 \<le> py_round (x / ulp x)"
      by (rule py_round_ge)
    then have "1 \<le> real_of_int (py_round (x / ulp x))"
      by simp
    then have "1 * ulp x \<le> real_of_int (py_round (x / ulp x)) * ulp x"
      using ulp_pos [of x] by (intro mult_right_mono) simp_all
    then have "ulp x \<le> fl x"
      by (simp only: flx mult_1)
    moreover have "(2::real) powi k \<le> ulp x"
      using False by (simp add: u two_powi_le_iff)
    ultimately show ?thesis
      by linarith
  qed
qed




text \<open>Powers that stay in range, and one that does not.\<close>

lemma float_pow_returns:
  assumes b: "\<bar>b\<bar> \<le> 2" and n: "0 \<le> n" "n \<le> 1023"
  shows "\<exists>p. float_pow (Fin b) n = Inr p"
proof -
  have "\<bar>n\<bar> < 2 ^ 53" using n by simp
  then have c: "int_to_float n = Inr (of_int n)"
    by (simp add: int_to_float_def to_float_of_int)
  have "\<bar>b powi n\<bar> = \<bar>b\<bar> ^ nat n"
    using n by (simp add: power_int_nonneg_exp power_abs)
  also have "\<dots> \<le> 2 ^ nat n"
    using b by (intro power_mono) simp_all
  also have "\<dots> = 2 powi n"
    using n by (simp add: power_int_nonneg_exp)
  also have "\<dots> \<le> 2 powi 1023"
    using n by (simp only: two_powi_le_iff)
  finally have "to_float (b powi n) = Fin (fl (b powi n))"
    by (rule to_float_fin)
  then show ?thesis
    using n by (simp add: float_pow_def c Let_def)
qed

lemma growth_6_percent: "\<exists>b. float_add (Fin 1) (float_div (Fin 6) (Fin 100)) = Fin b \<and> \<bar>b\<bar> \<le> 2"
proof -
  define q where "q = fl (6 / 100)"
  have h: "\<bar>6 / 100 :: real\<bar> \<le> 2 powi 0" by simp
  then have q: "\<bar>q\<bar> \<le> 2 powi 0"
    unfolding q_def by (rule fl_abs_le) simp
  have a: "to_float (6 / 100) = Fin q"
    unfolding q_def by (rule to_float_fin) simp
  have h': "\<bar>1 + q\<bar> \<le> 2 powi 1" using q by simp
  then have "\<bar>fl (1 + q)\<bar> \<le> 2 powi 1"
    by (rule fl_abs_le) simp
  moreover have "to_float (1 + q) = Fin (fl (1 + q))"
    using h' by (intro to_float_fin) simp
  ultimately show ?thesis
    using a by simp
qed


lemma to_float_dyadic:
  assumes "\<bar>k\<bar> < 2 ^ 53" "- 1074 \<le> e" "\<bar>real_of_int k * 2 powi e\<bar> \<le> 2 powi 1023"
  shows "to_float (of_int k * 2 powi e) = Fin (of_int k * 2 powi e)"
  using to_float_fin [OF assms(3)] fl_representable [OF assms(1,2)] by simp

lemma to_float_overflow: "2 ^ 1024 \<le> fl x \<Longrightarrow> to_float x = PInf"
  by (simp add: to_float_def)

lemma growth_overflow:
  "float_pow (float_add (Fin 1) (float_div (Fin (2 ^ 600)) (Fin 100))) 2 = Inl OverflowError"
proof -
  define q where "q = fl (2 ^ 600 / 100)"
  define b where "b = fl (1 + q)"
  have "2 powi 593 \<le> (2 ^ 600 / 100 :: real)" by simp
  then have ql: "2 powi 593 \<le> q"
    unfolding q_def by (rule fl_ge) simp
  have h: "\<bar>2 ^ 600 / 100 :: real\<bar> \<le> 2 powi 600" by simp
  then have qu: "\<bar>q\<bar> \<le> 2 powi 600"
    unfolding q_def by (rule fl_abs_le) simp
  have "\<bar>2 ^ 600 / 100 :: real\<bar> \<le> 2 powi 1023" by simp
  then have a: "to_float (2 ^ 600 / 100) = Fin q"
    unfolding q_def by (rule to_float_fin)
  have "2 powi 593 \<le> 1 + q" using ql by simp
  then have bl: "2 powi 593 \<le> b"
    unfolding b_def by (rule fl_ge) simp
  have "\<bar>1 + q\<bar> \<le> 2 powi 1023" using qu by simp
  then have a': "to_float (1 + q) = Fin b"
    unfolding b_def by (rule to_float_fin)
  have b0: "0 \<le> b" using bl two_powi_pos [of 593] by linarith
  have "(2 powi 593) * (2 powi 593) \<le> b * b"
    using bl b0 by (intro mult_mono) simp_all
  then have "2 powi 1186 \<le> b powi 2"
    by (simp add: power2_eq_square power_int_add [symmetric])
  then have "2 powi 1186 \<le> fl (b powi 2)"
    by (rule fl_ge) simp
  then have "2 ^ 1024 \<le> fl (b powi 2)"
    by simp
  then have ov: "to_float (b powi 2) = PInf"
    by (rule to_float_overflow)
  have c: "int_to_float 2 = Inr 2"
    using to_float_of_int [of 2] by (simp add: int_to_float_def)
  have "b \<noteq> 0" "\<bar>b\<bar> \<noteq> 1"
    using bl by simp_all
  then have "float_pow (Fin b) 2 = Inl OverflowError"
    using ov by (simp add: float_pow_def c Let_def)
  then show ?thesis
    by (simp only: float_div.simps a float_add.simps a')
qed

text \<open>An inflation of 25 percent over two years, where every step is exact.\<close>

lemma growth_25_percent:
  "float_pow (float_add (Fin 1) (float_div (Fin 25) (Fin 100))) 2 = Inr (Fin (25 / 16))"
proof -
  have a: "to_float (1 / 4) = Fin (1 / 4)"
    using to_float_dyadic [of 1 "- 2"] by simp
  have b: "to_float (5 / 4) = Fin (5 / 4)"
    using to_float_dyadic [of 5 "- 2"] by simp
  have c: "int_to_float 2 = Inr 2"
    using to_float_of_int [of 2] by (simp add: int_to_float_def)
  have d: "to_float (25 / 16) = Fin (25 / 16)"
    using to_float_dyadic [of 25 "- 4"] by simp
  show ?thesis
    by (simp add: float_pow_def a b c d Let_def power2_eq_square)
qed

lemma to_float_examples:
  "to_float 2500 = Fin 2500" "to_float 30000 = Fin 30000"
  "to_float 3000000 = Fin 3000000" "to_float 750000 = Fin 750000"
  "to_float 12000 = Fin 12000" "to_float 1000 = Fin 1000"
  "to_float (- 2000) = Fin (- 2000)" "to_float (- 500) = Fin (- 500)"
  using to_float_of_int [of 2500] to_float_of_int [of 30000]
    to_float_of_int [of 3000000] to_float_of_int [of 750000]
    to_float_of_int [of 12000] to_float_of_int [of 1000]
    to_float_of_int [of "- 2000"] to_float_of_int [of "- 500"] by simp_all

text \<open>
  The allocation table and the nine outcomes of the nudge and the normalisation. The
  fractions are written in lowest terms, the form in which the simplifier meets them.
\<close>

lemma risk_keys_normal:
  "py_strip (py_lower ''conservative'') = ''conservative''"
  "py_strip (py_lower ''moderate'') = ''moderate''"
  "py_strip (py_lower ''aggressive'') = ''aggressive''"
  by (simp_all add: py_strip_def py_lower_def lower_char_def is_space_def)

lemma RISK_ALLOCATION_lookup:
  "RISK_ALLOCATION ''conservative'' = Some \<lparr>equity = 3 / 10, debt = 6 / 10, gold = 1 / 10\<rparr>"
  "RISK_ALLOCATION ''moderate'' = Some \<lparr>equity = 6 / 10, debt = 3 / 10, gold = 1 / 10\<rparr>"
  "RISK_ALLOCATION ''aggressive'' = Some \<lparr>equity = 8 / 10, debt = 15 / 100, gold = 5 / 100\<rparr>"
  by (simp_all add: RISK_ALLOCATION_def)

lemma RISK_ALLOCATION_other:
  "k \<noteq> ''conservative'' \<Longrightarrow> k \<noteq> ''moderate'' \<Longrightarrow> k \<noteq> ''aggressive'' \<Longrightarrow>
     RISK_ALLOCATION k = None"
  by (simp add: RISK_ALLOCATION_def)

lemma py_round2_hundredth: "py_round2 (of_int k / 100) = of_int k / 100"
  by (simp add: py_round2_def py_round_def)

lemma normalize_nudge_conservative:
  "normalize_alloc (nudge \<lparr>equity = 3 / 10, debt = 3 / 5, gold = 1 / 10\<rparr> h) =
     Inr (if 10 \<le> h then \<lparr>equity = 35 / 100, debt = 55 / 100, gold = 10 / 100\<rparr>
          else if h \<le> 3 then \<lparr>equity = 15 / 100, debt = 75 / 100, gold = 10 / 100\<rparr>
          else \<lparr>equity = 30 / 100, debt = 60 / 100, gold = 10 / 100\<rparr>)"
  by (simp add: nudge_def normalize_alloc_def clamp_def py_truediv_def py_round2_def py_round_def Let_def)

lemma normalize_nudge_moderate:
  "normalize_alloc (nudge \<lparr>equity = 3 / 5, debt = 3 / 10, gold = 1 / 10\<rparr> h) =
     Inr (if 10 \<le> h then \<lparr>equity = 65 / 100, debt = 25 / 100, gold = 10 / 100\<rparr>
          else if h \<le> 3 then \<lparr>equity = 45 / 100, debt = 45 / 100, gold = 10 / 100\<rparr>
          else \<lparr>equity = 60 / 100, debt = 30 / 100, gold = 10 / 100\<rparr>)"
  by (simp add: nudge_def normalize_alloc_def clamp_def py_truediv_def py_round2_def py_round_def Let_def)

lemma normalize_nudge_aggressive:
  "normalize_alloc (nudge \<lparr>equity = 4 / 5, debt = 3 / 20, gold = 1 / 20\<rparr> h) =
     Inr (if 10 \<le> h then \<lparr>equity = 85 / 100, debt = 10 / 100, gold = 5 / 100\<rparr>
          else if h \<le> 3 then \<lparr>equity = 65 / 100, debt = 30 / 100, gold = 5 / 100\<rparr>
          else \<lparr>equity = 80 / 100, debt = 15 / 100, gold = 5 / 100\<rparr>)"
  by (simp add: nudge_def normalize_alloc_def clamp_def py_truediv_def py_round2_def py_round_def Let_def)


lemma allocation_base_known:
  "allocation_base ''conservative'' = Inr \<lparr>equity = 3 / 10, debt = 3 / 5, gold = 1 / 10\<rparr>"
  "allocation_base ''moderate'' = Inr \<lparr>equity = 3 / 5, debt = 3 / 10, gold = 1 / 10\<rparr>"
  "allocation_base ''aggressive'' = Inr \<lparr>equity = 4 / 5, debt = 3 / 20, gold = 1 / 20\<rparr>"
  by (simp_all add: allocation_base_def risk_keys_normal RISK_ALLOCATION_lookup)

lemma allocation_base_fallback:
  assumes "py_strip (py_lower risk) \<notin> {''conservative'', ''moderate'', ''aggressive''}"
  shows "allocation_base risk = Inr \<lparr>equity = 6 / 10, debt = 3 / 10, gold = 1 / 10\<rparr>"
proof -
  have "RISK_ALLOCATION (py_strip (py_lower risk)) = None"
    using assms by (intro RISK_ALLOCATION_other) auto
  then show ?thesis
    by (simp add: allocation_base_def RISK_ALLOCATION_lookup)
qed

lemma balanced_not_a_key:
  "py_strip (py_lower '' Balanced '') \<notin> {''conservative'', ''moderate'', ''aggressive''}"
  by (simp add: py_strip_def py_lower_def lower_char_def is_space_def)

text \<open>
  The no-break space and the next-line character are stripped, and an accented capital
  has its lower-case form.
\<close>

lemma py_strip_latin1:
  "py_strip (py_lower (CHR 0xA0 # ''Aggressive'' @ [CHR 0x85])) = ''aggressive''"
  "py_lower [CHR 0xC9] = [CHR 0xE9]"
  "py_lower [CHR 0xD7] = [CHR 0xD7]"
  by (simp_all add: py_strip_def py_lower_def lower_char_def is_space_def char_of_def bit_Suc_0_iff)

lemma allocation_base_nbsp:
  "allocation_base (CHR 0xA0 # ''aggressive'')
     = Inr \<lparr>equity = 4 / 5, debt = 3 / 20, gold = 1 / 20\<rparr>"
  by (simp add: allocation_base_def py_strip_def py_lower_def lower_char_def is_space_def
      RISK_ALLOCATION_lookup)

section \<open>Claims\<close>

text \<open>
  C1. New regime, salaried, gross annual income 700000, default configuration:
  \<open>estimate\<close> returns a result whose taxable income is 650000 (the gross income minus the
  standard deduction of 50000), whose rebate is the whole base slab tax, and whose total
  tax is 0. The two itemized deductions play no part in the new regime.
\<close>

theorem C1_new_regime_700000:
  "\<exists>r. estimate TaxConfig_default 700000 True ''new'' c d = Inr r
       \<and> taxable r = 650000
       \<and> taxable r = gross r - std_deduction_new TaxConfig_default
       \<and> std_deduction r = 50000
       \<and> taxable r \<le> rebate_threshold_new TaxConfig_default
       \<and> base_tax r = slab_tax 650000 (slabs_new TaxConfig_default)
       \<and> rebate r = base_tax r
       \<and> total_tax r = 0"
  by (simp add: estimate_def py_lower_new py_strip_new effective_rate_of_def py_truediv_def
      TaxConfig_default_fields slab_tax_new_650000 Let_def)

theorem C1_new_regime_700000_witness:
  "\<exists>r. estimate TaxConfig_default 700000 True ''new'' 0 0 = Inr r
       \<and> taxable r = 650000 \<and> rebate r = 20000 \<and> base_tax r = 20000 \<and> total_tax r = 0"
  using C1_new_regime_700000 [of 0 0] by (auto simp: slab_tax_new_650000)

text \<open>
  C4. For a valid slab table (bounded slabs with strictly increasing upper bounds, then one
  unbounded final slab, every rate between 0 and 1) and taxable incomes \<open>0 \<le> a \<le> b\<close>, the
  slab tax of \<open>a\<close> is at most the slab tax of \<open>b\<close>.
\<close>

theorem C4_slab_tax_monotone:
  "valid_slabs slabs \<Longrightarrow> 0 \<le> a \<Longrightarrow> a \<le> b \<Longrightarrow> slab_tax a slabs \<le> slab_tax b slabs"
  unfolding slab_tax_def
  by (rule slab_tax_loop_mono [OF valid_slabs_rates_nonneg]) simp_all

theorem C4_slab_tax_monotone_witness:
  "valid_slabs (slabs_new TaxConfig_default)
   \<and> (0::real) \<le> 650000 \<and> (650000::real) \<le> 700000
   \<and> slab_tax 650000 (slabs_new TaxConfig_default) = 20000
   \<and> slab_tax 700000 (slabs_new TaxConfig_default) = 25000
   \<and> slab_tax 650000 (slabs_new TaxConfig_default) \<le> slab_tax 700000 (slabs_new TaxConfig_default)"
  using C4_slab_tax_monotone [of "slabs_new TaxConfig_default" 650000 700000]
  by (simp add: valid_slabs_new_default slab_tax_new_650000 slab_tax_new_700000)

text \<open>
  C5. Old regime, salaried, gross annual income 1000000, 80C deduction 200000, 80D
  deduction 0, default configuration: the 80C amount is cut to its cap of 150000 without
  an error (the result is that of passing 150000), the deductions are 150000 itemized plus
  50000 standard, 200000 in all, and the taxable income is 800000.
\<close>

theorem C5_old_regime_80C_clamped:
  "estimate TaxConfig_default 1000000 True ''old'' 200000 0
     = estimate TaxConfig_default 1000000 True ''old'' 150000 0
   \<and> (\<exists>r. estimate TaxConfig_default 1000000 True ''old'' 200000 0 = Inr r
        \<and> deductions r = 150000
        \<and> std_deduction r = 50000
        \<and> deductions r + std_deduction r = 200000
        \<and> taxable r = 800000)"
  by (simp add: estimate_def py_lower_old py_strip_old effective_rate_of_def py_truediv_def
      TaxConfig_default_fields slab_tax_old_800000 Let_def)

text \<open>
  C9. For a gross annual income of 0, in either regime and for any configuration,
  \<open>estimate\<close> returns a result (it does not raise) whose effective rate is exactly 0; for a
  positive gross annual income the effective rate is the total tax divided by the gross
  income.
\<close>

theorem C9_effective_rate:
  "(\<exists>r. estimate cfg 0 s rg c d = Inr r \<and> effective_rate r = 0)
   \<and> (0 < g \<longrightarrow> (\<exists>r. estimate cfg g s rg c d = Inr r \<and> effective_rate r = total_tax r / g))"
proof
  show "\<exists>r. estimate cfg 0 s rg c d = Inr r \<and> effective_rate r = 0"
    using estimate_total [of cfg 0 s rg c d] by auto
  show "0 < g \<longrightarrow> (\<exists>r. estimate cfg g s rg c d = Inr r \<and> effective_rate r = total_tax r / g)"
    using estimate_total [of cfg g s rg c d] by auto
qed

theorem C9_effective_rate_witness:
  "(0::real) < 1000000 \<and> (\<exists>r. estimate TaxConfig_default 1000000 True ''old'' 200000 0 = Inr r
      \<and> effective_rate r = total_tax r / 1000000)"
  using C9_effective_rate [of TaxConfig_default True "''old''" 200000 0 1000000]
  by simp

text \<open>
  C6 (as stated, refuted). The claim says that a negative gross income or a negative
  itemized deduction is reported as a validation failure. At gross income -100000 with
  deductions -5000 and -1000 \<open>estimate\<close> returns an ordinary result.
\<close>

theorem C6_negative_inputs_accepted:
  "estimate TaxConfig_default (- 100000) True ''old'' (- 5000) (- 1000) =
     Inr \<lparr>regime = 0, gross = - 100000, std_deduction = 50000, deductions = 0,
          taxable = 0, base_tax = 0, rebate = 0, cess = 0, total_tax = 0,
          effective_rate = 0\<rparr>"
  by (simp add: estimate_def py_lower_old py_strip_old effective_rate_of_def py_truediv_def
      TaxConfig_default_fields slab_tax_default_0 Let_def)

text \<open>
  C6 (amended). \<open>estimate\<close> validates nothing: for every input it returns a result, whose
  \<open>gross\<close> field is the gross income passed; a negative 80C or 80D deduction is treated as
  0; and with the default configuration a negative gross income gives a taxable income
  and a total tax of 0.
\<close>

theorem C6_no_validation:
  "(\<exists>r. estimate cfg g s rg c d = Inr r \<and> gross r = g)
   \<and> estimate cfg g s rg c d = estimate cfg g s rg (max 0 c) (max 0 d)
   \<and> (g < 0 \<longrightarrow>
        (\<exists>r. estimate TaxConfig_default g s rg c d = Inr r \<and> taxable r = 0 \<and> total_tax r = 0))"
proof (intro conjI impI)
  show "\<exists>r. estimate cfg g s rg c d = Inr r \<and> gross r = g"
    using estimate_total [of cfg g s rg c d] by blast
  show "estimate cfg g s rg c d = estimate cfg g s rg (max 0 c) (max 0 d)"
    by (rule estimate_clamps_negative)
  show "\<exists>r. estimate TaxConfig_default g s rg c d = Inr r \<and> taxable r = 0 \<and> total_tax r = 0"
    if "g < 0" using that by (rule estimate_default_negative_gross)
qed

theorem C6_no_validation_witness:
  "(- 100000 :: real) < 0
   \<and> (\<exists>r. estimate TaxConfig_default (- 100000) True ''old'' (- 5000) (- 1000) = Inr r
         \<and> gross r = - 100000)
   \<and> estimate TaxConfig_default (- 100000) True ''old'' (- 5000) (- 1000)
       = estimate TaxConfig_default (- 100000) True ''old'' 0 0
   \<and> (\<exists>r. estimate TaxConfig_default (- 100000) True ''old'' (- 5000) (- 1000) = Inr r
         \<and> taxable r = 0 \<and> total_tax r = 0)"
proof -
  have m: "max 0 (- 5000 :: real) = 0" "max 0 (- 1000 :: real) = 0"
    by simp_all
  have neg: "(- 100000 :: real) < 0"
    by simp
  show ?thesis
    using C6_no_validation [of TaxConfig_default "- 100000" True "''old''" "- 5000" "- 1000", unfolded m] neg
    by blast
qed


text \<open>
  C2 (as stated, refuted). The claim says that each of the three annuity functions rejects
  a years value that rounds to zero or fewer months. For 0 years \<open>future_value_sip\<close>
  returns the number 0.0.
\<close>

theorem C2_zero_periods_not_rejected:
  "future_value_sip (Fin 1000) (Fin 12) (Fin 0) = Inr (Fin 0)"
  by (rule annuity_zero_periods(1) [OF months_0]) simp

text \<open>
  C2 (amended). None of the three annuity functions checks the period count
  \<open>n = int(round(years * 12))\<close>. When it is zero, \<open>future_value_sip\<close> returns 0.0 and
  \<open>required_sip\<close> and \<open>emi\<close> stop with Python's \<open>ZeroDivisionError\<close>, for every finite
  contribution and rate. When it is negative and the rate is zero, all three return a
  number: the float product \<open>monthly * n\<close> and the float quotients \<open>target / n\<close> and
  \<open>principal / n\<close>.
\<close>

theorem C2_period_count_unchecked:
  "(months years = Inr 0 \<longrightarrow> \<bar>pct\<bar> < 2 ^ 1024 \<longrightarrow>
      future_value_sip (Fin monthly) (Fin pct) years = Inr (Fin 0)
      \<and> required_sip target (Fin pct) years = Inl ZeroDivisionError
      \<and> emi principal_amount (Fin pct) years = Inl ZeroDivisionError)
   \<and> (months years = Inr n \<longrightarrow> n < 0 \<longrightarrow>
      future_value_sip contribution (Fin 0) years = Inr (float_mul contribution (Fin (of_int n)))
      \<and> required_sip target (Fin 0) years = Inr (float_div target (Fin (of_int n)))
      \<and> emi principal_amount (Fin 0) years = Inr (float_div principal_amount (Fin (of_int n))))"
proof (intro conjI impI)
  assume n: "months years = Inr 0" and pct: "\<bar>pct\<bar> < 2 ^ 1024"
  show "future_value_sip (Fin monthly) (Fin pct) years = Inr (Fin 0)"
    using n pct by (rule annuity_zero_periods(1))
  show "required_sip target (Fin pct) years = Inl ZeroDivisionError"
    using n pct by (rule annuity_zero_periods(2))
  show "emi principal_amount (Fin pct) years = Inl ZeroDivisionError"
    using n pct by (rule annuity_zero_periods(3))
next
  assume n: "months years = Inr n" and neg: "n < 0"
  have n0: "Fin (real_of_int n) \<noteq> Fin 0"
    using neg by simp
  show "future_value_sip contribution (Fin 0) years
          = Inr (float_mul contribution (Fin (of_int n)))"
    using n by (rule annuity_zero_rate(1))
  show "required_sip target (Fin 0) years = Inr (float_div target (Fin (of_int n)))"
    using annuity_zero_rate(2) [OF n] n0 by (simp only: float_truediv_def if_False)
  show "emi principal_amount (Fin 0) years = Inr (float_div principal_amount (Fin (of_int n)))"
    using annuity_zero_rate(3) [OF n] n0 by (simp only: float_truediv_def if_False)
qed

theorem C2_period_count_unchecked_witness:
  "months (Fin (3002399751580331 / 2 ^ 56)) = Inr 0
   \<and> \<bar>12 :: real\<bar> < 2 ^ 1024
   \<and> future_value_sip (Fin 1000) (Fin 12) (Fin (3002399751580331 / 2 ^ 56)) = Inr (Fin 0)
   \<and> required_sip (Fin 1000) (Fin 12) (Fin (3002399751580331 / 2 ^ 56)) = Inl ZeroDivisionError
   \<and> emi (Fin 1000) (Fin 12) (Fin (3002399751580331 / 2 ^ 56)) = Inl ZeroDivisionError
   \<and> months (Fin (- 7505999378950827 / 2 ^ 55)) = Inr (- 2)
   \<and> (- 2 :: int) < 0
   \<and> future_value_sip (Fin 1000) (Fin 0) (Fin (- 7505999378950827 / 2 ^ 55)) = Inr (Fin (- 2000))
   \<and> required_sip (Fin 1000) (Fin 0) (Fin (- 7505999378950827 / 2 ^ 55)) = Inr (Fin (- 500))
   \<and> emi (Fin 1000) (Fin 0) (Fin (- 7505999378950827 / 2 ^ 55)) = Inr (Fin (- 500))"
proof -
  have b: "\<bar>12 :: real\<bar> < 2 ^ 1024" and neg: "(- 2 :: int) < 0"
    by simp_all
  have v: "float_mul (Fin 1000) (Fin (of_int (- 2))) = Fin (- 2000)"
    "float_div (Fin 1000) (Fin (of_int (- 2))) = Fin (- 500)"
    by (simp_all add: to_float_examples)
  note zero = C2_period_count_unchecked
    [of "Fin (3002399751580331 / 2 ^ 56)" 12 1000 "Fin 1000" "Fin 1000" 0 "Fin 1000"]
  note minus = C2_period_count_unchecked
    [of "Fin (- 7505999378950827 / 2 ^ 55)" 12 1000 "Fin 1000" "Fin 1000" "- 2" "Fin 1000",
     unfolded v]
  show ?thesis
    using zero minus months_half_month months_minus_two_and_a_half b neg by blast
qed




text \<open>
  C8 (as stated, refuted). The claim gives the result of \<open>retirement_target\<close> for all
  inputs. With a safe withdrawal rate of 0 the function returns nothing: the division
  raises.
\<close>

theorem C8_zero_swr_raises:
  "retirement_target (Fin 1000) 10 20 (Fin 6) (Fin 0) = Inl ZeroDivisionError"
proof -
  obtain b where b: "float_add (Fin 1) (float_div (Fin 6) (Fin 100)) = Fin b" "\<bar>b\<bar> \<le> 2"
    using growth_6_percent by blast
  obtain p where "float_pow (Fin b) 10 = Inr p"
    using float_pow_returns [OF b(2), of 10] by auto
  then show ?thesis
    by (simp only: retirement_target_def Let_def b(1) sum.case float_truediv_zero)
qed

text \<open>
  C8 (amended). The outcome of \<open>retirement_target\<close> is the same for any two values of
  \<open>retired_years\<close>. When the power \<open>(1 + inflation_pct / 100) ** years_to_retire\<close> raises
  (\<open>ZeroDivisionError\<close> for a zero base and a negative horizon, \<open>OverflowError\<close> for a
  result or a horizon out of the range of the floats), \<open>retirement_target\<close> raises the
  same error. When the power has a value: for \<open>swr_pct = 0\<close> the function raises
  \<open>ZeroDivisionError\<close>; otherwise it returns the inflated monthly expense
  \<open>monthly_expense_today * power\<close> and the corpus \<open>inflated_monthly * 12 * 100 / swr_pct\<close>,
  every operation rounded to a float.
\<close>

theorem C8_retirement_target:
  "retirement_target m y ry1 i s = retirement_target m y ry2 i s
   \<and> (float_pow (float_add (Fin 1) (float_div i (Fin 100))) y = Inl e \<longrightarrow>
        retirement_target m y ry1 i s = Inl e)
   \<and> (float_pow (float_add (Fin 1) (float_div i (Fin 100))) y = Inr p \<longrightarrow> s = Fin 0 \<longrightarrow>
        retirement_target m y ry1 i s = Inl ZeroDivisionError)
   \<and> (float_pow (float_add (Fin 1) (float_div i (Fin 100))) y = Inr p \<longrightarrow> s \<noteq> Fin 0 \<longrightarrow>
        retirement_target m y ry1 i s =
          Inr (float_div (float_mul (float_mul (float_mul m p) (Fin 12)) (Fin 100)) s,
               float_mul m p))"
  by (simp add: retirement_target_def float_truediv_def Let_def)

theorem C8_retirement_target_witness:
  "retirement_target (Fin 1600) 2 20 (Fin 25) (Fin 4)
     = retirement_target (Fin 1600) 2 35 (Fin 25) (Fin 4)
   \<and> float_pow (float_add (Fin 1) (float_div (Fin (2 ^ 600)) (Fin 100))) 2 = Inl OverflowError
   \<and> retirement_target (Fin 1) 2 20 (Fin (2 ^ 600)) (Fin 1) = Inl OverflowError
   \<and> float_pow (float_add (Fin 1) (float_div (Fin 25) (Fin 100))) 2 = Inr (Fin (25 / 16))
   \<and> retirement_target (Fin 1600) 2 20 (Fin 25) (Fin 0) = Inl ZeroDivisionError
   \<and> Fin 4 \<noteq> Fin 0
   \<and> retirement_target (Fin 1600) 2 20 (Fin 25) (Fin 4) = Inr (Fin 750000, Fin 2500)"
proof -
  have v: "float_mul (Fin 1600) (Fin (25 / 16)) = Fin 2500"
    "float_div (float_mul (float_mul (Fin 2500) (Fin 12)) (Fin 100)) (Fin 4) = Fin 750000"
    by (simp_all add: to_float_examples)
  have nz: "Fin 4 \<noteq> Fin 0"
    by simp
  note over = C8_retirement_target
    [of "Fin 1" 2 20 "Fin (2 ^ 600)" "Fin 1" 35 OverflowError "Fin 0"]
  note zero = C8_retirement_target
    [of "Fin 1600" 2 20 "Fin 25" "Fin 0" 35 OverflowError "Fin (25 / 16)"]
  note four = C8_retirement_target
    [of "Fin 1600" 2 20 "Fin 25" "Fin 4" 35 OverflowError "Fin (25 / 16)", unfolded v]
  show ?thesis
    using over zero four growth_overflow growth_25_percent nz by blast
qed


text \<open>
  C7. For each of the risk categories \<open>conservative\<close>, \<open>moderate\<close> and \<open>aggressive\<close> and
  every integer horizon of at least 1, \<open>suggest_allocation\<close> returns three weights, none
  negative, whose sum is within 0.01 of 1.
\<close>

theorem C7_allocation_weights:
  "risk \<in> {''conservative'', ''moderate'', ''aggressive''} \<Longrightarrow> 1 \<le> h \<Longrightarrow>
     \<exists>a. suggest_allocation risk h = Inr a
        \<and> 0 \<le> equity a \<and> 0 \<le> debt a \<and> 0 \<le> gold a
        \<and> \<bar>equity a + debt a + gold a - 1\<bar> \<le> 1 / 100"
proof -
  assume "risk \<in> {''conservative'', ''moderate'', ''aggressive''}"
  then consider "risk = ''conservative''" | "risk = ''moderate''" | "risk = ''aggressive''"
    by blast
  then show ?thesis
  proof cases
    case 1
    then show ?thesis
      by (simp add: suggest_allocation_def allocation_base_known normalize_nudge_conservative)
  next
    case 2
    then show ?thesis
      by (simp add: suggest_allocation_def allocation_base_known normalize_nudge_moderate)
  next
    case 3
    then show ?thesis
      by (simp add: suggest_allocation_def allocation_base_known normalize_nudge_aggressive)
  qed
qed

theorem C7_allocation_weights_witness:
  "''aggressive'' \<in> {''conservative'', ''moderate'', ''aggressive''} \<and> (1::int) \<le> 12
   \<and> suggest_allocation ''aggressive'' 12 = Inr \<lparr>equity = 85 / 100, debt = 10 / 100, gold = 5 / 100\<rparr>
   \<and> (\<exists>a. suggest_allocation ''aggressive'' 12 = Inr a
        \<and> 0 \<le> equity a \<and> 0 \<le> debt a \<and> 0 \<le> gold a
        \<and> \<bar>equity a + debt a + gold a - 1\<bar> \<le> 1 / 100)"
  using C7_allocation_weights [of "''aggressive''" 12]
  by (simp add: suggest_allocation_def allocation_base_known normalize_nudge_aggressive)

text \<open>
  C10. A risk string that, lowercased and stripped, is none of \<open>conservative\<close>,
  \<open>moderate\<close>, \<open>aggressive\<close> does not make \<open>suggest_allocation\<close> fail: the base split is
  the moderate one (equity 0.6, debt 0.3, gold 0.1), so the result, horizon nudge
  included, is that of the risk \<open>moderate\<close>.
\<close>

theorem C10_unknown_risk_falls_back:
  "py_strip (py_lower risk) \<notin> {''conservative'', ''moderate'', ''aggressive''} \<Longrightarrow>
     allocation_base risk = Inr \<lparr>equity = 6 / 10, debt = 3 / 10, gold = 1 / 10\<rparr>
     \<and> suggest_allocation risk h = suggest_allocation ''moderate'' h
     \<and> (\<exists>a. suggest_allocation risk h = Inr a)"
  by (simp add: suggest_allocation_def allocation_base_fallback allocation_base_known
      normalize_nudge_moderate)

theorem C10_unknown_risk_falls_back_witness:
  "py_strip (py_lower '' Balanced '') \<notin> {''conservative'', ''moderate'', ''aggressive''}
   \<and> allocation_base '' Balanced '' = Inr \<lparr>equity = 6 / 10, debt = 3 / 10, gold = 1 / 10\<rparr>
   \<and> suggest_allocation '' Balanced '' 2 = suggest_allocation ''moderate'' 2
   \<and> suggest_allocation '' Balanced '' 2 = Inr \<lparr>equity = 45 / 100, debt = 45 / 100, gold = 10 / 100\<rparr>"
  using C10_unknown_risk_falls_back [of "'' Balanced ''" 2] balanced_not_a_key
  by (simp add: suggest_allocation_def allocation_base_known normalize_nudge_moderate)

end
